theory Spec2Isabelle
  imports Complex_Main
begin

section \<open>The card game bot: tables, statements, handlers\<close>

text \<open>
  The program is \<^verbatim>\<open>index.js\<close>: a Telegraf bot over a Postgres database with four
  tables. (The second source file is the same bot with a keep-alive server in front;
  its givePassiveIncomeAll and weightedChoice are the same functions.) Each handler
  is a sequence of SQL statements sent one at a time; none of them opens a
  transaction, so every statement commits by itself. The model keeps the tables as
  lists of rows (a \<^verbatim>\<open>SELECT\<close> is a \<^const>\<open>filter\<close>, an
  \<^verbatim>\<open>UPDATE ... WHERE\<close> a \<^const>\<open>map\<close>), passes the database through each
  handler explicitly and returns, with the handler's result, the database as the last
  statement left it.

  Conventions of the embedding:
  \<^item> Telegram ids, row ids and coin amounts are unbounded integers; the ranges of
    \<^verbatim>\<open>BIGINT\<close> and \<^verbatim>\<open>INTEGER\<close> and the precision of a JavaScript number are not
    modelled.
  \<^item> The driver (node-postgres, with no type parser set on the Pool) hands an
    \<^verbatim>\<open>INTEGER\<close> column over as a number and a \<^verbatim>\<open>BIGINT\<close> column as the string of
    its digits. Where the source passes such a string through
    \<^verbatim>\<open>parseInt(x || 0, 10)\<close> (\<^verbatim>\<open>coins\<close>, \<^verbatim>\<open>income\<close>) the result is the number
    again, and the model reads the number at once. Where the source compares the
    string itself (\<^verbatim>\<open>tr.to_user !== uid\<close>), the model compares the string.
  \<^item> A time of the program is a number of milliseconds since the epoch, what
    \<^verbatim>\<open>new Date(...)\<close> subtracts. The column \<^verbatim>\<open>last_pack\<close> is a
    \<^verbatim>\<open>TIMESTAMP\<close> without time zone: it holds a wall-clock time, kept here as the
    milliseconds it is when taken as UTC (the default \<^verbatim>\<open>'1970-01-01'\<close> is 0).
    Writing \<^verbatim>\<open>now.toISOString()\<close> stores the UTC wall clock of \<^verbatim>\<open>now\<close>, the
    suffix \<^verbatim>\<open>Z\<close> being ignored by the column type; the driver reads the column back
    as local time of the process, so the time read is the value stored minus the
    offset of the process from UTC (\<open>utc_offset\<close>, in milliseconds, positive east of
    Greenwich, taken as the same at the write and at the read).
  \<^item> The columns \<^verbatim>\<open>coins\<close>, \<^verbatim>\<open>last_pack\<close> and \<^verbatim>\<open>coins_per_hour\<close> are
    written only by statements that store a value or leave the column's default, so
    they are never \<^verbatim>\<open>NULL\<close>. The \<^verbatim>\<open>created_at\<close> columns are read by no handler
    modelled here and are left out.
  \<^item> The income query has \<^verbatim>\<open>GROUP BY\<close> and no \<^verbatim>\<open>ORDER BY\<close>: the order of its
    rows is the executor's choice and an input of each tick. The catalog query has
    no \<^verbatim>\<open>ORDER BY\<close> either; its rows are used through random picks only and are
    read in table order.
  \<^item> \<^verbatim>\<open>Math.random()\<close> is an input: the world carries the sequence of its values.
  \<^item> A statement can be rejected by the persistence layer (a lost connection): the
    world carries, for each request sent to the pool, whether it is rejected. A
    rejected statement changes nothing; the statements before it stay committed.
\<close>

subsection \<open>Rows and tables (initDb, sql/schema.sql)\<close>

record card =
  card_id :: int
  card_name :: string
  card_rarity :: string
  image_file_id :: "string option"
  coins_per_hour :: int

record user =
  tg_id :: int
  last_pack :: int
  coins :: int

record inventory_row =
  inv_id :: int
  user_id :: int
  inv_card_id :: int

record trade =
  trade_id :: int
  from_user :: int
  to_user :: int
  offered_inventory_id :: int
  requested_inventory_id :: "int option"
  status :: string

text \<open>The three \<^verbatim>\<open>SERIAL\<close> columns draw their ids from a sequence each.\<close>

record db =
  cards :: "card list"
  cards_id_seq :: int
  users :: "user list"
  inventory :: "inventory_row list"
  inventory_id_seq :: int
  trades :: "trade list"
  trades_id_seq :: int

subsection \<open>Errors\<close>

text \<open>
  What a handler can end with besides its normal reply. The first group are the
  alerts the handlers send, under the names of the specification's taxonomy
  (\<^verbatim>\<open>AlreadyResolved\<close> is in the taxonomy; no handler produces it). The second
  group are exceptions: a rejected or failed statement, and the \<^verbatim>\<open>TypeError\<close> of
  reading a property of \<^verbatim>\<open>undefined\<close>.
\<close>

datatype db_error = ConnectionError | UniqueViolation | ForeignKeyViolation

datatype error =
    CooldownActive int
  | InsufficientFunds
  | NotFound
  | NotTarget
  | AlreadyResolved
  | QueryFailed db_error
  | TypeError

subsection \<open>The world: database, issued requests, faults, random numbers\<close>

datatype request =
    Connect
  | InsertUser int
  | SelectLastPack int
  | UpdateLastPack int int
  | SelectCards
  | InsertInventory int int
  | InsertCard string string int
  | SelectCoins int
  | DebitCoins int int
  | SelectIncome
  | CreditCoins int int
  | SelectTrade int
  | UpdateInventoryOwner int int
  | UpdateTradeStatus string int

record world =
  store :: db
  issued :: "request list"
  fault :: "nat \<Rightarrow> bool"
  rng :: "nat \<Rightarrow> real"
  rng_no :: nat

type_synonym 'a io = "world \<Rightarrow> (error + 'a) \<times> world"

definition return_io :: "'a \<Rightarrow> 'a io" where
  "return_io a w = (Inr a, w)"

definition throw :: "error \<Rightarrow> 'a io" where
  "throw e w = (Inl e, w)"

text \<open>\<^verbatim>\<open>await\<close> one step, then go on; an exception ends the handler.\<close>

definition bind_io :: "'a io \<Rightarrow> ('a \<Rightarrow> 'b io) \<Rightarrow> 'b io" where
  "bind_io m k w = (case m w of (Inl e, w1) \<Rightarrow> (Inl e, w1) | (Inr a, w1) \<Rightarrow> k a w1)"

text \<open>
  \<^verbatim>\<open>pool.query(...)\<close> and \<^verbatim>\<open>client.query(...)\<close>: the request is recorded; the
  \<open>n\<close>-th request sent is rejected when \<open>fault w n\<close>; otherwise the statement runs on
  the database and its effect is committed. A statement that fails a constraint
  throws as well, and only its sequence draw stays.
\<close>

definition query :: "request \<Rightarrow> (db \<Rightarrow> (db_error + 'a) \<times> db) \<Rightarrow> 'a io" where
  "query q run w =
     (let w1 = w\<lparr>issued := issued w @ [q]\<rparr> in
      if fault w (length (issued w)) then (Inl (QueryFailed ConnectionError), w1)
      else (case run (store w) of
              (Inl e, d) \<Rightarrow> (Inl (QueryFailed e), w1\<lparr>store := d\<rparr>)
            | (Inr a, d) \<Rightarrow> (Inr a, w1\<lparr>store := d\<rparr>)))"

text \<open>\<^verbatim>\<open>pool.connect()\<close>: a request of its own, which can be rejected.\<close>

definition pool_connect :: "unit io" where
  "pool_connect w =
     (let w1 = w\<lparr>issued := issued w @ [Connect]\<rparr> in
      if fault w (length (issued w)) then (Inl (QueryFailed ConnectionError), w1)
      else (Inr (), w1))"

definition random :: "world \<Rightarrow> real \<times> world" where
  "random w = (rng w (rng_no w), w\<lparr>rng_no := rng_no w + 1\<rparr>)"

subsection \<open>The SQL statements\<close>

text \<open>\<^verbatim>\<open>INSERT INTO users (tg_id) VALUES ($1) ON CONFLICT (tg_id) DO NOTHING\<close>\<close>

definition insert_user :: "int \<Rightarrow> db \<Rightarrow> (db_error + unit) \<times> db" where
  "insert_user uid d =
     (if uid \<in> set (map tg_id (users d)) then (Inr (), d)
      else (Inr (), d\<lparr>users := users d @ [\<lparr>tg_id = uid, last_pack = 0, coins = 0\<rparr>]\<rparr>))"

text \<open>
  \<^verbatim>\<open>SELECT last_pack FROM users WHERE tg_id=$1\<close>, with the rows as the driver
  hands them over: each stored wall-clock time read as local time.
\<close>

definition select_last_pack :: "int \<Rightarrow> int \<Rightarrow> db \<Rightarrow> (db_error + int list) \<times> db" where
  "select_last_pack utc_offset uid d =
     (Inr (map (\<lambda>u. last_pack u - utc_offset) (filter (\<lambda>u. tg_id u = uid) (users d))), d)"

text \<open>
  \<^verbatim>\<open>UPDATE users SET last_pack=$1 WHERE tg_id=$2\<close> with \<^verbatim>\<open>now.toISOString()\<close>
  for the first parameter: the UTC wall clock of \<open>now\<close> is stored.
\<close>

definition update_last_pack :: "int \<Rightarrow> int \<Rightarrow> db \<Rightarrow> (db_error + unit) \<times> db" where
  "update_last_pack now uid d =
     (Inr (), d\<lparr>users := map (\<lambda>u. if tg_id u = uid then u\<lparr>last_pack := now\<rparr> else u) (users d)\<rparr>)"

text \<open>\<^verbatim>\<open>SELECT id, name, rarity, image_file_id FROM cards\<close>\<close>

definition select_cards :: "db \<Rightarrow> (db_error + card list) \<times> db" where
  "select_cards d = (Inr (cards d), d)"

text \<open>
  \<^verbatim>\<open>INSERT INTO inventory (user_id, card_id) VALUES ($1,$2)\<close>: the id is drawn from
  the sequence (the draw stays when the insert fails); the id is a primary key, and
  \<^verbatim>\<open>user_id\<close> and \<^verbatim>\<open>card_id\<close> reference \<^verbatim>\<open>users\<close> and \<^verbatim>\<open>cards\<close>.
\<close>

definition insert_inventory :: "int \<Rightarrow> int \<Rightarrow> db \<Rightarrow> (db_error + unit) \<times> db" where
  "insert_inventory uid cid d =
     (let n = inventory_id_seq d; d1 = d\<lparr>inventory_id_seq := n + 1\<rparr> in
      if n \<in> set (map inv_id (inventory d)) then (Inl UniqueViolation, d1)
      else if uid \<in> set (map tg_id (users d)) \<and> cid \<in> set (map card_id (cards d))
      then (Inr (), d1\<lparr>inventory := inventory d @ [\<lparr>inv_id = n, user_id = uid, inv_card_id = cid\<rparr>]\<rparr>)
      else (Inl ForeignKeyViolation, d1))"

text \<open>
  \<^verbatim>\<open>INSERT INTO cards (name, rarity, coins_per_hour) VALUES ($1,$2,$3)
  RETURNING id, name, rarity, image_file_id\<close>
\<close>

definition insert_card :: "string \<Rightarrow> string \<Rightarrow> int \<Rightarrow> db \<Rightarrow> (db_error + card) \<times> db" where
  "insert_card nm rar cph d =
     (let n = cards_id_seq d; d1 = d\<lparr>cards_id_seq := n + 1\<rparr>;
          row = \<lparr>card_id = n, card_name = nm, card_rarity = rar, image_file_id = None,
                 coins_per_hour = cph\<rparr> in
      if n \<in> set (map card_id (cards d)) then (Inl UniqueViolation, d1)
      else (Inr row, d1\<lparr>cards := cards d @ [row]\<rparr>))"

text \<open>\<^verbatim>\<open>SELECT coins FROM users WHERE tg_id=$1\<close>\<close>

definition select_coins :: "int \<Rightarrow> db \<Rightarrow> (db_error + int list) \<times> db" where
  "select_coins uid d = (Inr (map coins (filter (\<lambda>u. tg_id u = uid) (users d))), d)"

text \<open>\<^verbatim>\<open>UPDATE users SET coins = coins - $1 WHERE tg_id = $2\<close>\<close>

definition update_coins_sub :: "int \<Rightarrow> int \<Rightarrow> db \<Rightarrow> (db_error + unit) \<times> db" where
  "update_coins_sub price uid d =
     (Inr (), d\<lparr>users := map (\<lambda>u. if tg_id u = uid then u\<lparr>coins := coins u - price\<rparr> else u) (users d)\<rparr>)"

text \<open>\<^verbatim>\<open>UPDATE users SET coins = coins + $1 WHERE tg_id = $2\<close>\<close>

definition update_coins_add :: "int \<Rightarrow> int \<Rightarrow> db \<Rightarrow> (db_error + unit) \<times> db" where
  "update_coins_add income uid d =
     (Inr (), d\<lparr>users := map (\<lambda>u. if tg_id u = uid then u\<lparr>coins := coins u + income\<rparr> else u) (users d)\<rparr>)"

text \<open>
  The income query of givePassiveIncomeAll:
  \<^verbatim>\<open>SELECT u.tg_id, COALESCE(SUM(c.coins_per_hour),0) AS income FROM users u
  LEFT JOIN inventory i ON i.user_id = u.tg_id LEFT JOIN cards c ON c.id = i.card_id
  GROUP BY u.tg_id\<close>.
  \<open>income_of d uid\<close> is the sum over the joined rows of one user; a user without
  inventory has the empty sum, 0. The result has one row per user. Their order is
  given by \<open>rank\<close>, the position the executor gives each user's group (groups of
  equal rank stay in table order): every order of the users is the order of some
  \<open>rank\<close>.
\<close>

definition income_of :: "db \<Rightarrow> int \<Rightarrow> int" where
  "income_of d uid =
     sum_list (concat (map (\<lambda>i. map coins_per_hour (filter (\<lambda>c. card_id c = inv_card_id i) (cards d)))
                           (filter (\<lambda>i. user_id i = uid) (inventory d))))"

definition income_rows :: "(int \<Rightarrow> nat) \<Rightarrow> db \<Rightarrow> (int \<times> int) list" where
  "income_rows rank d =
     sort_key (\<lambda>r. rank (fst r)) (map (\<lambda>u. (tg_id u, income_of d (tg_id u))) (users d))"

definition select_income :: "(int \<Rightarrow> nat) \<Rightarrow> db \<Rightarrow> (db_error + (int \<times> int) list) \<times> db" where
  "select_income rank d = (Inr (income_rows rank d), d)"

text \<open>\<^verbatim>\<open>SELECT * FROM trades WHERE id=$1\<close>\<close>

definition select_trade :: "int \<Rightarrow> db \<Rightarrow> (db_error + trade list) \<times> db" where
  "select_trade trId d = (Inr (filter (\<lambda>t. trade_id t = trId) (trades d)), d)"

text \<open>
  \<^verbatim>\<open>UPDATE inventory SET user_id = $1 WHERE id = $2\<close>: the new owner must be a row
  of \<^verbatim>\<open>users\<close> when a row is updated.
\<close>

definition update_inventory_owner :: "int \<Rightarrow> int \<Rightarrow> db \<Rightarrow> (db_error + unit) \<times> db" where
  "update_inventory_owner uid invId d =
     (if invId \<in> set (map inv_id (inventory d)) \<and> uid \<notin> set (map tg_id (users d))
      then (Inl ForeignKeyViolation, d)
      else (Inr (), d\<lparr>inventory := map (\<lambda>i. if inv_id i = invId then i\<lparr>user_id := uid\<rparr> else i) (inventory d)\<rparr>))"

text \<open>\<^verbatim>\<open>UPDATE trades SET status=$1 WHERE id=$2\<close>\<close>

definition update_trade_status :: "string \<Rightarrow> int \<Rightarrow> db \<Rightarrow> (db_error + unit) \<times> db" where
  "update_trade_status st trId d =
     (Inr (), d\<lparr>trades := map (\<lambda>t. if trade_id t = trId then t\<lparr>status := st\<rparr> else t) (trades d)\<rparr>)"

subsection \<open>ensureUser\<close>

definition ensureUser :: "int \<Rightarrow> unit io" where
  "ensureUser uid = query (InsertUser uid) (insert_user uid)"

subsection \<open>Rarity policy: RARITY_DEFAULTS, getRaritiesAndWeights, weightedChoice\<close>

record rarity_default =
  weight :: int
  default_coins_per_hour :: int

definition RARITY_DEFAULTS :: "(string \<times> rarity_default) list" where
  "RARITY_DEFAULTS =
     [(''common'', \<lparr>weight = 60, default_coins_per_hour = 1\<rparr>),
      (''rare'', \<lparr>weight = 25, default_coins_per_hour = 3\<rparr>),
      (''epic'', \<lparr>weight = 10, default_coins_per_hour = 8\<rparr>),
      (''legendary'', \<lparr>weight = 5, default_coins_per_hour = 20\<rparr>)]"

definition getRaritiesAndWeights :: "string list \<times> int list" where
  "getRaritiesAndWeights = (map fst RARITY_DEFAULTS, map (weight \<circ> snd) RARITY_DEFAULTS)"

text \<open>
  The loop of weightedChoice from index \<open>i\<close> on: \<open>None\<close> when it ends without a
  hit. A missing weight makes \<^verbatim>\<open>rnd\<close> NaN, and no later test succeeds.
\<close>

fun weightedChoice_loop :: "'a list \<Rightarrow> int list \<Rightarrow> real \<Rightarrow> 'a option" where
  "weightedChoice_loop [] ws rnd = None"
| "weightedChoice_loop (x # xs) [] rnd = None"
| "weightedChoice_loop (x # xs) (w # ws) rnd =
     (if rnd - of_int w \<le> 0 then Some x else weightedChoice_loop xs ws (rnd - of_int w))"

text \<open>
  \<open>u\<close> is the value of \<^verbatim>\<open>Math.random()\<close>. The fallback is the last item;
  \<open>None\<close> is \<^verbatim>\<open>undefined\<close>, the last item of no items.
\<close>

definition weightedChoice :: "'a list \<Rightarrow> int list \<Rightarrow> real \<Rightarrow> 'a option" where
  "weightedChoice items weights u =
     (case weightedChoice_loop items weights (u * of_int (sum_list weights)) of
        Some x \<Rightarrow> Some x
      | None \<Rightarrow> (if items = [] then None else Some (last items)))"

text \<open>\<^verbatim>\<open>xs[Math.floor(u * xs.length)]\<close>; \<open>None\<close> is \<^verbatim>\<open>undefined\<close>.\<close>

definition pick :: "'a list \<Rightarrow> real \<Rightarrow> 'a option" where
  "pick xs u =
     (let i = \<lfloor>u * of_nat (length xs)\<rfloor> in
      if 0 \<le> i \<and> i < int (length xs) then Some (xs ! nat i) else None)"

subsection \<open>The pack loop\<close>

text \<open>
  The decimal digits of a number, for the name \<^verbatim>\<open>`Card ${...}`\<close> of a card the
  loop makes up.
\<close>

fun digits :: "nat \<Rightarrow> string" where
  "digits n =
     (if n < 10 then [''0123456789'' ! n]
      else digits (n div 10) @ [''0123456789'' ! (n mod 10)])"

declare digits.simps [simp del]

definition string_of_int :: "int \<Rightarrow> string" where
  "string_of_int i = (if i < 0 then CHR ''-'' # digits (nat (- i)) else digits (nat i))"

text \<open>
  One round of the loop that free_pack runs five times (lines 146 to 162) and buyPack
  \<^verbatim>\<open>count\<close> times (lines 201 to 216); the two bodies are the same statements.
  \<open>cardsDb\<close> is the catalog as it was read before the loop: the loop never reads it
  again. The round returns the card it pushed on \<^verbatim>\<open>got\<close>.
\<close>

definition pack_round :: "int \<Rightarrow> card list \<Rightarrow> card io" where
  "pack_round uid cardsDb w =
     (if cardsDb \<noteq> [] then
        (let (u1, w1) = random w;
             rarity = weightedChoice (fst getRaritiesAndWeights) (snd getRaritiesAndWeights) u1;
             bucket = filter (\<lambda>c. Some (card_rarity c) = rarity) cardsDb;
             (u2, w2) = random w1;
             choice = (if bucket \<noteq> [] then pick bucket u2 else pick cardsDb u2)
         in case choice of
              None \<Rightarrow> throw TypeError w2
            | Some c \<Rightarrow>
                bind_io (query (InsertInventory uid (card_id c)) (insert_inventory uid (card_id c)))
                  (\<lambda>_. return_io c) w2)
      else
        (let (u1, w1) = random w;
             rarity = weightedChoice (fst getRaritiesAndWeights) (snd getRaritiesAndWeights) u1;
             (u2, w2) = random w1;
             nm = ''Card '' @ string_of_int (\<lfloor>u2 * 9000\<rfloor> + 1000)
         in case rarity of
              None \<Rightarrow> throw TypeError w2
            | Some r \<Rightarrow>
                (case map_of RARITY_DEFAULTS r of
                   None \<Rightarrow> throw TypeError w2
                 | Some rd \<Rightarrow>
                     bind_io (query (InsertCard nm r (default_coins_per_hour rd))
                                    (insert_card nm r (default_coins_per_hour rd)))
                       (\<lambda>c. bind_io (query (InsertInventory uid (card_id c))
                                            (insert_inventory uid (card_id c)))
                               (\<lambda>_. return_io c)) w2)))"

text \<open>
  \<^verbatim>\<open>for (let i=0;i<count;i++) { ... }\<close> with \<open>n\<close> rounds left and \<^verbatim>\<open>got\<close> so far.
  The specification calls this loop openPack.
\<close>

fun openPack :: "nat \<Rightarrow> int \<Rightarrow> card list \<Rightarrow> card list \<Rightarrow> card list io" where
  "openPack 0 uid cardsDb got w = (Inr got, w)"
| "openPack (Suc n) uid cardsDb got w =
     (case pack_round uid cardsDb w of
        (Inl e, w1) \<Rightarrow> (Inl e, w1)
      | (Inr c, w1) \<Rightarrow> openPack n uid cardsDb (got @ [c]) w1)"

subsection \<open>bot.action('free_pack')\<close>

text \<open>\<^verbatim>\<open>Math.ceil(a / 60000)\<close> for an integer \<open>a\<close>.\<close>

definition ceil_minutes :: "int \<Rightarrow> int" where
  "ceil_minutes a = - ((- a) div 60000)"

text \<open>
  \<open>cooldown_minutes\<close> is COOLDOWN_MINUTES, \<open>utc_offset\<close> the offset of the process
  from UTC, \<open>now\<close> the value of \<^verbatim>\<open>new Date()\<close>. The alert of an active cooldown
  carries \<^verbatim>\<open>wait\<close>. The normal result is \<^verbatim>\<open>got\<close>, the cards the reply lists.
\<close>

definition free_pack :: "int \<Rightarrow> int \<Rightarrow> int \<Rightarrow> int \<Rightarrow> card list io" where
  "free_pack cooldown_minutes utc_offset uid now =
     bind_io (ensureUser uid) (\<lambda>_.
     bind_io (query (SelectLastPack uid) (select_last_pack utc_offset uid)) (\<lambda>rows.
       let last = (case rows of [] \<Rightarrow> 0 | t # _ \<Rightarrow> t);
           diff = now - last in
       if diff < cooldown_minutes * 60 * 1000
       then throw (CooldownActive (ceil_minutes (cooldown_minutes * 60 * 1000 - diff)))
       else
         bind_io (query (UpdateLastPack now uid) (update_last_pack now uid)) (\<lambda>_.
         bind_io (query SelectCards select_cards) (\<lambda>cardsDb.
         openPack 5 uid cardsDb []))))"

subsection \<open>buyPack and bot.action(/buy_/)\<close>

text \<open>
  The result \<^verbatim>\<open>{ ok:false, msg }\<close> is InsufficientFunds, the result
  \<^verbatim>\<open>{ ok:true, cards: got }\<close> is \<^verbatim>\<open>got\<close>. A \<^verbatim>\<open>count\<close> below 1 runs no round.
\<close>

definition buyPack :: "int \<Rightarrow> int \<Rightarrow> int \<Rightarrow> card list io" where
  "buyPack uid count price =
     bind_io pool_connect (\<lambda>_.
     bind_io (query (SelectCoins uid) (select_coins uid)) (\<lambda>rows.
       let balance = (case rows of [] \<Rightarrow> 0 | c # _ \<Rightarrow> c) in
       if balance < price then throw InsufficientFunds
       else
         bind_io (query (DebitCoins price uid) (update_coins_sub price uid)) (\<lambda>_.
         bind_io (query SelectCards select_cards) (\<lambda>cardsDb.
         openPack (nat count) uid cardsDb []))))"

text \<open>
  The shop's table. A callback tag that matches \<^verbatim>\<open>/buy_/\<close> and is not a key of the
  table has no entry to destructure: a TypeError.
\<close>

definition buy_action :: "int \<Rightarrow> string \<Rightarrow> card list io" where
  "buy_action uid key =
     (case map_of [(''buy_2'', (2, 20)), (''buy_3'', (3, 25)), (''buy_10'', (10, 60))] key of
        None \<Rightarrow> throw TypeError
      | Some (count, price) \<Rightarrow> buyPack uid count price)"

subsection \<open>givePassiveIncomeAll and the hourly timer\<close>

text \<open>\<^verbatim>\<open>for (const r of rows.rows) { ... }\<close>: no exception is caught inside the loop.\<close>

fun credit_rows :: "(int \<times> int) list \<Rightarrow> unit io" where
  "credit_rows [] w = (Inr (), w)"
| "credit_rows ((uid, income) # rs) w =
     (if income > 0 then
        (case query (CreditCoins income uid) (update_coins_add income uid) w of
           (Inl e, w1) \<Rightarrow> (Inl e, w1)
         | (Inr _, w1) \<Rightarrow> credit_rows rs w1)
      else credit_rows rs w)"

text \<open>\<open>rank\<close> is the order in which this call gets the rows of its query.\<close>

definition givePassiveIncomeAll :: "(int \<Rightarrow> nat) \<Rightarrow> unit io" where
  "givePassiveIncomeAll rank =
     bind_io pool_connect (\<lambda>_.
     bind_io (query SelectIncome (select_income rank)) credit_rows)"

text \<open>
  The callback of \<^verbatim>\<open>setInterval\<close> in startBackgroundTasks: the exception of a
  tick is caught and logged, and the timer goes on.
\<close>

definition income_tick :: "(int \<Rightarrow> nat) \<Rightarrow> world \<Rightarrow> world" where
  "income_tick rank w = snd (givePassiveIncomeAll rank w)"

subsection \<open>bot.action(/trade_accept:/) and bot.action(/trade_reject:/)\<close>

text \<open>
  The two kinds of JavaScript value the accept handler compares. \<^verbatim>\<open>a !== b\<close> is
  true when the kinds differ, and compares the contents when they agree: it is
  inequality of this type. \<^verbatim>\<open>tr.to_user\<close> is a \<^verbatim>\<open>BIGINT\<close> column, which the
  driver hands over as a string; \<^verbatim>\<open>ctx.from.id\<close> is a number.
\<close>

datatype js_value = JsNumber int | JsString string

definition read_bigint :: "int \<Rightarrow> js_value" where
  "read_bigint n = JsString (string_of_int n)"

text \<open>
  \<open>trId\<close> is the parsed id of the callback data, \<open>uid\<close> is \<^verbatim>\<open>ctx.from.id\<close>. The
  test of line 278 compares a string with a number, so it sends every user away,
  the target too, and the two UPDATEs after it are never reached.
\<close>

definition trade_accept :: "int \<Rightarrow> int \<Rightarrow> unit io" where
  "trade_accept trId uid =
     bind_io (query (SelectTrade trId) (select_trade trId)) (\<lambda>rows.
       case rows of
         [] \<Rightarrow> throw NotFound
       | tr # _ \<Rightarrow>
           if read_bigint (to_user tr) \<noteq> JsNumber uid then throw NotTarget
           else
             bind_io (query (UpdateInventoryOwner (to_user tr) (offered_inventory_id tr))
                            (update_inventory_owner (to_user tr) (offered_inventory_id tr))) (\<lambda>_.
             query (UpdateTradeStatus ''accepted'' trId) (update_trade_status ''accepted'' trId)))"

text \<open>The reject handler reads neither the trade nor \<^verbatim>\<open>ctx.from.id\<close>.\<close>

definition trade_reject :: "int \<Rightarrow> int \<Rightarrow> unit io" where
  "trade_reject trId uid =
     query (UpdateTradeStatus ''rejected'' trId) (update_trade_status ''rejected'' trId)"

section \<open>Notions used in the statements\<close>

text \<open>
  No request is rejected; every value of \<^verbatim>\<open>Math.random()\<close> lies in \<open>[0, 1)\<close>.
\<close>

definition no_faults :: "world \<Rightarrow> bool" where
  "no_faults w = (\<forall>n. \<not> fault w n)"

definition rng_ok :: "world \<Rightarrow> bool" where
  "rng_ok w = (\<forall>n. 0 \<le> rng w n \<and> rng w n < 1)"

text \<open>
  The two sequences used by the pack loop are ahead of the ids in their tables, as
  they are when every id was drawn from them.
\<close>

definition wf_ids :: "db \<Rightarrow> bool" where
  "wf_ids d =
     ((\<forall>i \<in> set (inventory d). inv_id i < inventory_id_seq d) \<and>
      (\<forall>c \<in> set (cards d). card_id c < cards_id_seq d))"

text \<open>
  What lets the pack loop run to its end for user \<open>uid\<close> with the catalog snapshot
  \<open>cardsDb\<close>: the above, the user has an account (the foreign key of
  \<^verbatim>\<open>inventory.user_id\<close>), and the cards of the snapshot are still in the catalog.
\<close>

definition pack_ready :: "int \<Rightarrow> card list \<Rightarrow> world \<Rightarrow> bool" where
  "pack_ready uid cardsDb w =
     (no_faults w \<and> rng_ok w \<and> wf_ids (store w) \<and>
      uid \<in> set (map tg_id (users (store w))) \<and>
      set (map card_id cardsDb) \<subseteq> set (map card_id (cards (store w))))"

text \<open>
  The balance of a user as buyPack reads it, and the last-pack time stored for a
  user: those of the first row of the user, and 0 when there is none.
\<close>

definition balance_of :: "db \<Rightarrow> int \<Rightarrow> int" where
  "balance_of d uid = (case filter (\<lambda>u. tg_id u = uid) (users d) of [] \<Rightarrow> 0 | u # _ \<Rightarrow> coins u)"

definition last_pack_of :: "db \<Rightarrow> int \<Rightarrow> int" where
  "last_pack_of d uid = (case filter (\<lambda>u. tg_id u = uid) (users d) of [] \<Rightarrow> 0 | u # _ \<Rightarrow> last_pack u)"

text \<open>
  The statuses and the targets of a trade: one element for each row with that id,
  so the empty list when there is none.
\<close>

definition status_of :: "db \<Rightarrow> int \<Rightarrow> string list" where
  "status_of d trId = map status (filter (\<lambda>t. trade_id t = trId) (trades d))"

definition target_of :: "db \<Rightarrow> int \<Rightarrow> int list" where
  "target_of d trId = map to_user (filter (\<lambda>t. trade_id t = trId) (trades d))"

text \<open>
  The income of a user in the specification's words: the sum, over the inventory
  entries the user owns, of the income rate of the card each entry references (the
  card with that id; the primary key makes it one). It is compared below with
  \<^const>\<open>income_of\<close>, the sum the query of the source computes.
\<close>

definition owned_income :: "db \<Rightarrow> int \<Rightarrow> int" where
  "owned_income d uid =
     sum_list (map (\<lambda>i. case find (\<lambda>c. card_id c = inv_card_id i) (cards d) of
                           None \<Rightarrow> 0 | Some c \<Rightarrow> coins_per_hour c)
                   (filter (\<lambda>i. user_id i = uid) (inventory d)))"

section \<open>Concrete worlds\<close>

text \<open>User 7 with 60 coins, an empty catalog, no rejected request.\<close>

definition world_empty_catalog :: world where
  "world_empty_catalog =
     \<lparr>store = \<lparr>cards = [], cards_id_seq = 1,
               users = [\<lparr>tg_id = 7, last_pack = 0, coins = 60\<rparr>],
               inventory = [], inventory_id_seq = 1, trades = [], trades_id_seq = 1\<rparr>,
      issued = [], fault = (\<lambda>n. False), rng = (\<lambda>n. 1 / 2), rng_no = 0\<rparr>"

text \<open>
  User 7 and the empty catalog again, with balances 60, 0, 25 and 20 and with one
  request rejected: the request numbered as the fault says, counted from 0 over the
  requests sent.
\<close>

definition world_fault_second_round :: world where
  "world_fault_second_round =
     \<lparr>store = \<lparr>cards = [], cards_id_seq = 1,
               users = [\<lparr>tg_id = 7, last_pack = 0, coins = 60\<rparr>],
               inventory = [], inventory_id_seq = 1, trades = [], trades_id_seq = 1\<rparr>,
      issued = [], fault = (\<lambda>n. n = 6), rng = (\<lambda>n. 1 / 2), rng_no = 0\<rparr>"

definition world_fault_in_loop :: world where
  "world_fault_in_loop =
     \<lparr>store = \<lparr>cards = [], cards_id_seq = 1,
               users = [\<lparr>tg_id = 7, last_pack = 0, coins = 0\<rparr>],
               inventory = [], inventory_id_seq = 1, trades = [], trades_id_seq = 1\<rparr>,
      issued = [], fault = (\<lambda>n. n = 4), rng = (\<lambda>n. 1 / 2), rng_no = 0\<rparr>"

definition world_fault_after_debit :: world where
  "world_fault_after_debit =
     \<lparr>store = \<lparr>cards = [], cards_id_seq = 1,
               users = [\<lparr>tg_id = 7, last_pack = 0, coins = 25\<rparr>],
               inventory = [], inventory_id_seq = 1, trades = [], trades_id_seq = 1\<rparr>,
      issued = [], fault = (\<lambda>n. n = 4), rng = (\<lambda>n. 1 / 2), rng_no = 0\<rparr>"

definition world_fault_first_insert :: world where
  "world_fault_first_insert =
     \<lparr>store = \<lparr>cards = [], cards_id_seq = 1,
               users = [\<lparr>tg_id = 7, last_pack = 0, coins = 20\<rparr>],
               inventory = [], inventory_id_seq = 1, trades = [], trades_id_seq = 1\<rparr>,
      issued = [], fault = (\<lambda>n. n = 5), rng = (\<lambda>n. 1 / 2), rng_no = 0\<rparr>"

text \<open>User 7 with 59 coins, no rejected request.\<close>

definition world_59_coins :: world where
  "world_59_coins =
     \<lparr>store = \<lparr>cards = [], cards_id_seq = 1,
               users = [\<lparr>tg_id = 7, last_pack = 0, coins = 59\<rparr>],
               inventory = [], inventory_id_seq = 1, trades = [], trades_id_seq = 1\<rparr>,
      issued = [], fault = (\<lambda>n. False), rng = (\<lambda>n. 1 / 2), rng_no = 0\<rparr>"

text \<open>
  User 7 opened the last free pack at time 1000000; the catalog has one card.
  Three hours are 10800000 milliseconds.
\<close>

definition flame_dragon :: card where
  "flame_dragon = \<lparr>card_id = 1, card_name = ''Flame Dragon'', card_rarity = ''epic'',
                     image_file_id = None, coins_per_hour = 8\<rparr>"


definition world_cooldown :: world where
  "world_cooldown =
     \<lparr>store = \<lparr>cards = [\<lparr>card_id = 1, card_name = ''Flame Dragon'', card_rarity = ''epic'',
                          image_file_id = None, coins_per_hour = 8\<rparr>],
               cards_id_seq = 2,
               users = [\<lparr>tg_id = 7, last_pack = 1000000, coins = 0\<rparr>],
               inventory = [], inventory_id_seq = 1, trades = [], trades_id_seq = 1\<rparr>,
      issued = [], fault = (\<lambda>n. False), rng = (\<lambda>n. 1 / 2), rng_no = 0\<rparr>"

text \<open>
  Worlds for the hourly tick. In the first, user 1 owns cards with income rates 1
  and 8 and user 2 owns nothing. In the second and the third, users 1, 2 and 3 own
  one card each; the third request of the tick (its first credit) is rejected in
  the second, the fourth request (its second credit) in the third. In the fourth,
  user 1 owns one card whose rate is -3, as the card-adding handlers store it when
  an administrator types it. The order in which the income query hands its rows
  over is taken to be user 2, user 3, then every other user.
\<close>

definition observed_order :: "int \<Rightarrow> nat" where
  "observed_order u = (if u = 2 then 0 else if u = 3 then 1 else 2)"

definition world_income_negative :: world where
  "world_income_negative =
     \<lparr>store = \<lparr>cards = [\<lparr>card_id = 1, card_name = ''Curse'', card_rarity = ''common'',
                          image_file_id = None, coins_per_hour = - 3\<rparr>],
               cards_id_seq = 2,
               users = [\<lparr>tg_id = 1, last_pack = 0, coins = 10\<rparr>],
               inventory = [\<lparr>inv_id = 1, user_id = 1, inv_card_id = 1\<rparr>],
               inventory_id_seq = 2, trades = [], trades_id_seq = 1\<rparr>,
      issued = [], fault = (\<lambda>n. False), rng = (\<lambda>n. 1 / 2), rng_no = 0\<rparr>"


definition world_income :: world where
  "world_income =
     \<lparr>store = \<lparr>cards = [\<lparr>card_id = 1, card_name = ''Card 1000'', card_rarity = ''common'',
                          image_file_id = None, coins_per_hour = 1\<rparr>,
                        \<lparr>card_id = 2, card_name = ''Flame Dragon'', card_rarity = ''epic'',
                          image_file_id = None, coins_per_hour = 8\<rparr>],
               cards_id_seq = 3,
               users = [\<lparr>tg_id = 1, last_pack = 0, coins = 10\<rparr>,
                        \<lparr>tg_id = 2, last_pack = 0, coins = 5\<rparr>],
               inventory = [\<lparr>inv_id = 1, user_id = 1, inv_card_id = 1\<rparr>,
                            \<lparr>inv_id = 2, user_id = 1, inv_card_id = 2\<rparr>],
               inventory_id_seq = 3, trades = [], trades_id_seq = 1\<rparr>,
      issued = [], fault = (\<lambda>n. False), rng = (\<lambda>n. 1 / 2), rng_no = 0\<rparr>"

definition world_income_fault :: world where
  "world_income_fault =
     \<lparr>store = \<lparr>cards = [\<lparr>card_id = 1, card_name = ''Card 1000'', card_rarity = ''common'',
                          image_file_id = None, coins_per_hour = 1\<rparr>,
                        \<lparr>card_id = 2, card_name = ''Flame Dragon'', card_rarity = ''epic'',
                          image_file_id = None, coins_per_hour = 8\<rparr>],
               cards_id_seq = 3,
               users = [\<lparr>tg_id = 1, last_pack = 0, coins = 10\<rparr>,
                        \<lparr>tg_id = 2, last_pack = 0, coins = 5\<rparr>,
                        \<lparr>tg_id = 3, last_pack = 0, coins = 0\<rparr>],
               inventory = [\<lparr>inv_id = 1, user_id = 1, inv_card_id = 1\<rparr>,
                            \<lparr>inv_id = 2, user_id = 2, inv_card_id = 2\<rparr>,
                            \<lparr>inv_id = 3, user_id = 3, inv_card_id = 1\<rparr>],
               inventory_id_seq = 4, trades = [], trades_id_seq = 1\<rparr>,
      issued = [], fault = (\<lambda>n. n = 2), rng = (\<lambda>n. 1 / 2), rng_no = 0\<rparr>"

definition world_income_fault_second :: world where
  "world_income_fault_second =
     \<lparr>store = \<lparr>cards = [\<lparr>card_id = 1, card_name = ''Card 1000'', card_rarity = ''common'',
                          image_file_id = None, coins_per_hour = 1\<rparr>,
                        \<lparr>card_id = 2, card_name = ''Flame Dragon'', card_rarity = ''epic'',
                          image_file_id = None, coins_per_hour = 8\<rparr>],
               cards_id_seq = 3,
               users = [\<lparr>tg_id = 1, last_pack = 0, coins = 10\<rparr>,
                        \<lparr>tg_id = 2, last_pack = 0, coins = 5\<rparr>,
                        \<lparr>tg_id = 3, last_pack = 0, coins = 0\<rparr>],
               inventory = [\<lparr>inv_id = 1, user_id = 1, inv_card_id = 1\<rparr>,
                            \<lparr>inv_id = 2, user_id = 2, inv_card_id = 2\<rparr>,
                            \<lparr>inv_id = 3, user_id = 3, inv_card_id = 1\<rparr>],
               inventory_id_seq = 4, trades = [], trades_id_seq = 1\<rparr>,
      issued = [], fault = (\<lambda>n. n = 3), rng = (\<lambda>n. 1 / 2), rng_no = 0\<rparr>"

text \<open>
  Users 10, 20 and 30. User 10 owns inventory entry 5 and has offered it twice:
  trade 1 to user 20 and trade 2 to user 30, both pending. Then the world after
  user 20 rejected trade 1.
\<close>

definition world_trades :: world where
  "world_trades =
     \<lparr>store = \<lparr>cards = [\<lparr>card_id = 1, card_name = ''Flame Dragon'', card_rarity = ''epic'',
                          image_file_id = None, coins_per_hour = 8\<rparr>],
               cards_id_seq = 2,
               users = [\<lparr>tg_id = 10, last_pack = 0, coins = 0\<rparr>,
                        \<lparr>tg_id = 20, last_pack = 0, coins = 0\<rparr>,
                        \<lparr>tg_id = 30, last_pack = 0, coins = 0\<rparr>],
               inventory = [\<lparr>inv_id = 5, user_id = 10, inv_card_id = 1\<rparr>],
               inventory_id_seq = 6,
               trades = [\<lparr>trade_id = 1, from_user = 10, to_user = 20, offered_inventory_id = 5,
                           requested_inventory_id = None, status = ''pending''\<rparr>,
                         \<lparr>trade_id = 2, from_user = 10, to_user = 30, offered_inventory_id = 5,
                           requested_inventory_id = None, status = ''pending''\<rparr>],
               trades_id_seq = 3\<rparr>,
      issued = [], fault = (\<lambda>n. False), rng = (\<lambda>n. 1 / 2), rng_no = 0\<rparr>"

definition world_trade_rejected :: world where
  "world_trade_rejected = snd (trade_reject 1 20 world_trades)"

section \<open>Lemmas\<close>

subsection \<open>Rarity policy and picks\<close>

lemma weightedChoice_rarity:
  "\<exists>r rd. weightedChoice (fst getRaritiesAndWeights) (snd getRaritiesAndWeights) u = Some r \<and>
     map_of RARITY_DEFAULTS r = Some rd"
  by (simp add: weightedChoice_def getRaritiesAndWeights_def RARITY_DEFAULTS_def)

lemma pick_in_range:
  assumes "xs \<noteq> []" "0 \<le> u" "u < 1"
  shows "\<exists>x. pick xs u = Some x \<and> x \<in> set xs"
proof -
  let ?n = "length xs"
  have n: "0 < ?n" using assms(1) by simp
  have lo: "0 \<le> \<lfloor>u * of_nat ?n\<rfloor>" using assms(2) by simp
  have "u * of_nat ?n < of_nat ?n" using assms(3) n by simp
  then have hi: "\<lfloor>u * of_nat ?n\<rfloor> < int ?n" by (simp add: floor_less_iff)
  from lo hi have "nat \<lfloor>u * of_nat ?n\<rfloor> < ?n" by linarith
  then have "xs ! nat \<lfloor>u * of_nat ?n\<rfloor> \<in> set xs" by simp
  with lo hi show ?thesis by (simp add: pick_def Let_def)
qed

lemma ceil_minutes_ceiling: "ceil_minutes a = \<lceil>real_of_int a / 60000\<rceil>"
  unfolding ceil_minutes_def using ceiling_divide_eq_div [where ?'a = real, of a 60000] by simp

subsection \<open>The two inserts of the pack loop\<close>

lemma query_insert_inventory:
  assumes "query q (insert_inventory uid cid) w = (r, w')"
  shows "cards (store w') = cards (store w) \<and> cards_id_seq (store w') = cards_id_seq (store w) \<and>
         users (store w') = users (store w) \<and> trades (store w') = trades (store w) \<and>
         fault w' = fault w \<and> rng w' = rng w \<and> rng_no w' = rng_no w \<and>
         inventory (store w') =
           inventory (store w) @
             (case r of Inl e \<Rightarrow> []
              | Inr x \<Rightarrow> [\<lparr>inv_id = inventory_id_seq (store w), user_id = uid, inv_card_id = cid\<rparr>])"
  using assms
  by (auto simp: query_def insert_inventory_def Let_def split: if_splits)

lemma query_insert_card:
  assumes "query q (insert_card nm rar cph) w = (r, w')"
  shows "inventory (store w') = inventory (store w) \<and>
         inventory_id_seq (store w') = inventory_id_seq (store w) \<and>
         users (store w') = users (store w) \<and> trades (store w') = trades (store w) \<and>
         fault w' = fault w \<and> rng w' = rng w \<and> rng_no w' = rng_no w \<and>
         cards (store w') = cards (store w) @ (case r of Inl e \<Rightarrow> [] | Inr c \<Rightarrow> [c])"
  using assms
  by (auto simp: query_def insert_card_def Let_def split: if_splits)

lemma query_insert_inventory_ok:
  assumes "\<not> fault w (length (issued w))"
      and "\<forall>i \<in> set (inventory (store w)). inv_id i < inventory_id_seq (store w)"
      and "uid \<in> set (map tg_id (users (store w)))"
      and "cid \<in> set (map card_id (cards (store w)))"
  shows "query q (insert_inventory uid cid) w =
           (Inr (), w\<lparr>issued := issued w @ [q],
                      store := (store w)\<lparr>inventory_id_seq := inventory_id_seq (store w) + 1,
                        inventory := inventory (store w) @
                          [\<lparr>inv_id = inventory_id_seq (store w), user_id = uid, inv_card_id = cid\<rparr>]\<rparr>\<rparr>)"
proof -
  have "inventory_id_seq (store w) \<notin> set (map inv_id (inventory (store w)))"
    using assms(2) by auto
  with assms show ?thesis
    by (simp add: query_def insert_inventory_def Let_def)
qed

lemma query_insert_card_ok:
  assumes "\<not> fault w (length (issued w))"
      and "\<forall>c \<in> set (cards (store w)). card_id c < cards_id_seq (store w)"
  shows "query q (insert_card nm rar cph) w =
           (Inr \<lparr>card_id = cards_id_seq (store w), card_name = nm, card_rarity = rar,
                 image_file_id = None, coins_per_hour = cph\<rparr>,
            w\<lparr>issued := issued w @ [q],
              store := (store w)\<lparr>cards_id_seq := cards_id_seq (store w) + 1,
                cards := cards (store w) @
                  [\<lparr>card_id = cards_id_seq (store w), card_name = nm, card_rarity = rar,
                    image_file_id = None, coins_per_hour = cph\<rparr>]\<rparr>\<rparr>)"
proof -
  have "cards_id_seq (store w) \<notin> set (map card_id (cards (store w)))"
    using assms(2) by auto
  with assms show ?thesis
    by (simp add: query_def insert_card_def Let_def)
qed

subsection \<open>One round, and the loop\<close>

text \<open>What a round changes, whether it ends normally or throws.\<close>

lemma pack_round_effect:
  assumes "pack_round uid cardsDb w = (r, w')"
  shows "users (store w') = users (store w) \<and> trades (store w') = trades (store w) \<and>
         fault w' = fault w \<and> rng w' = rng w \<and>
         (\<exists>new. inventory (store w') = inventory (store w) @ new \<and>
                (\<forall>i \<in> set new. user_id i = uid) \<and>
                length new = (case r of Inl e \<Rightarrow> 0 | Inr c \<Rightarrow> 1)) \<and>
         (\<exists>made. cards (store w') = cards (store w) @ made \<and> length made \<le> 1 \<and>
                (cardsDb \<noteq> [] \<longrightarrow> made = []) \<and>
                (cardsDb = [] \<longrightarrow> (case r of Inl e \<Rightarrow> True | Inr c \<Rightarrow> length made = 1)))"
proof (cases "cardsDb = []")
  case False
  with assms show ?thesis
    by (auto simp: pack_round_def random_def Let_def throw_def bind_io_def return_io_def
        split: option.splits sum.splits prod.splits if_splits
        dest!: query_insert_inventory)
next
  case True
  with assms show ?thesis
    by (auto simp: pack_round_def random_def Let_def throw_def bind_io_def return_io_def
        split: option.splits sum.splits prod.splits if_splits
        dest!: query_insert_inventory query_insert_card)
qed

lemma openPack_effect:
  "openPack n uid cardsDb got w = (r, w') \<Longrightarrow>
     users (store w') = users (store w) \<and> trades (store w') = trades (store w) \<and>
     fault w' = fault w \<and> rng w' = rng w \<and>
     (\<exists>new. inventory (store w') = inventory (store w) @ new \<and>
            (\<forall>i \<in> set new. user_id i = uid) \<and>
            (case r of Inl e \<Rightarrow> length new < n | Inr g \<Rightarrow> length new = n)) \<and>
     (\<exists>made. cards (store w') = cards (store w) @ made \<and> length made \<le> n \<and>
            (cardsDb \<noteq> [] \<longrightarrow> made = []) \<and>
            (cardsDb = [] \<longrightarrow> (case r of Inl e \<Rightarrow> True | Inr g \<Rightarrow> length made = n)))"
proof (induction n arbitrary: got w)
  case 0
  then show ?case by auto
next
  case (Suc n)
  obtain r1 w1 where step: "pack_round uid cardsDb w = (r1, w1)"
    by (cases "pack_round uid cardsDb w")
  note e1 = pack_round_effect [OF step]
  show ?case
  proof (cases r1)
    case (Inl e)
    with Suc.prems step have "r = Inl e" "w' = w1" by auto
    with e1 Inl show ?thesis by auto
  next
    case (Inr c)
    with Suc.prems step have rest: "openPack n uid cardsDb (got @ [c]) w1 = (r, w')" by auto
    note e2 = Suc.IH [OF rest]
    from e1 Inr obtain new1 made1 where
      n1: "inventory (store w1) = inventory (store w) @ new1" "\<forall>i \<in> set new1. user_id i = uid"
          "length new1 = 1"
      and m1: "cards (store w1) = cards (store w) @ made1" "length made1 \<le> 1"
          "cardsDb \<noteq> [] \<longrightarrow> made1 = []" "cardsDb = [] \<longrightarrow> length made1 = 1"
      by auto
    from e2 obtain new2 made2 where
      n2: "inventory (store w') = inventory (store w1) @ new2" "\<forall>i \<in> set new2. user_id i = uid"
          "case r of Inl e \<Rightarrow> length new2 < n | Inr g \<Rightarrow> length new2 = n"
      and m2: "cards (store w') = cards (store w1) @ made2" "length made2 \<le> n"
          "cardsDb \<noteq> [] \<longrightarrow> made2 = []"
          "cardsDb = [] \<longrightarrow> (case r of Inl e \<Rightarrow> True | Inr g \<Rightarrow> length made2 = n)"
      by auto
    have inv: "\<exists>new. inventory (store w') = inventory (store w) @ new \<and>
            (\<forall>i \<in> set new. user_id i = uid) \<and>
            (case r of Inl e \<Rightarrow> length new < Suc n | Inr g \<Rightarrow> length new = Suc n)"
      using n1 n2 by (intro exI [of _ "new1 @ new2"]) (auto split: sum.splits)
    have crd: "\<exists>made. cards (store w') = cards (store w) @ made \<and> length made \<le> Suc n \<and>
            (cardsDb \<noteq> [] \<longrightarrow> made = []) \<and>
            (cardsDb = [] \<longrightarrow> (case r of Inl e \<Rightarrow> True | Inr g \<Rightarrow> length made = Suc n))"
      using m1 m2 by (intro exI [of _ "made1 @ made2"]) (auto split: sum.splits)
    from e1 e2 inv crd show ?thesis by simp
  qed
qed

text \<open>
  A failing run: some rounds end normally, the next one throws, and what the store
  holds is what they left.
\<close>

lemma openPack_failure:
  "openPack n uid cardsDb got w = (Inl e, w') \<Longrightarrow>
     \<exists>k got1 w1 new. k < n \<and> openPack k uid cardsDb got w = (Inr got1, w1) \<and>
       pack_round uid cardsDb w1 = (Inl e, w') \<and>
       inventory (store w') = inventory (store w) @ new \<and> length new = k \<and>
       (\<forall>i \<in> set new. user_id i = uid)"
proof (induction n arbitrary: got w)
  case 0
  then show ?case by simp
next
  case (Suc n)
  obtain r1 w1 where step: "pack_round uid cardsDb w = (r1, w1)"
    by (cases "pack_round uid cardsDb w")
  note e1 = pack_round_effect [OF step]
  show ?case
  proof (cases r1)
    case (Inl e1)
    with Suc.prems step have same: "e1 = e" "w1 = w'" by auto
    with e1 Inl have "inventory (store w') = inventory (store w) @ []" by auto
    with step Inl same show ?thesis
      by (intro exI [of _ 0] exI [of _ got] exI [of _ w] exI [of _ "[]"]) simp
  next
    case (Inr c)
    with Suc.prems step have rest: "openPack n uid cardsDb (got @ [c]) w1 = (Inl e, w')" by auto
    from Suc.IH [OF rest] obtain k got1 w2 new2 where
      ih: "k < n" "openPack k uid cardsDb (got @ [c]) w1 = (Inr got1, w2)"
        "pack_round uid cardsDb w2 = (Inl e, w')"
        "inventory (store w') = inventory (store w1) @ new2" "length new2 = k"
        "\<forall>i \<in> set new2. user_id i = uid"
      by blast
    from e1 Inr obtain new1 where
      n1: "inventory (store w1) = inventory (store w) @ new1" "\<forall>i \<in> set new1. user_id i = uid"
        "length new1 = 1"
      by auto
    from step Inr ih(2) have run: "openPack (Suc k) uid cardsDb got w = (Inr got1, w2)" by simp
    from ih n1 have "inventory (store w') = inventory (store w) @ (new1 @ new2)"
      "length (new1 @ new2) = Suc k" "\<forall>i \<in> set (new1 @ new2). user_id i = uid"
      by auto
    with ih(1,3) run show ?thesis
      by (intro exI [of _ "Suc k"] exI [of _ got1] exI [of _ w2] exI [of _ "new1 @ new2"]) simp
  qed
qed

lemma openPack_got:
  "openPack n uid cardsDb got w = (Inr got', w') \<Longrightarrow> length got' = length got + n"
proof (induction n arbitrary: got w)
  case 0
  then show ?case by simp
next
  case (Suc n)
  then show ?case by (auto split: prod.splits sum.splits)
qed

text \<open>A round of a ready world ends normally and leaves the world ready.\<close>

lemma pack_round_ok:
  assumes "pack_ready uid cardsDb w"
  shows "\<exists>c w'. pack_round uid cardsDb w = (Inr c, w') \<and> pack_ready uid cardsDb w'"
proof (cases "cardsDb = []")
  case False
  let ?u1 = "rng w (rng_no w)" and ?u2 = "rng w (Suc (rng_no w))"
  let ?bucket = "filter (\<lambda>c. Some (card_rarity c) =
         weightedChoice (fst getRaritiesAndWeights) (snd getRaritiesAndWeights) ?u1) cardsDb"
  let ?w2 = "w\<lparr>rng_no := Suc (Suc (rng_no w))\<rparr>"
  from assms have u2: "0 \<le> ?u2" "?u2 < 1" by (auto simp: pack_ready_def rng_ok_def)
  have "\<exists>c. (if ?bucket \<noteq> [] then pick ?bucket ?u2 else pick cardsDb ?u2) = Some c \<and> c \<in> set cardsDb"
    using pick_in_range [OF _ u2, of ?bucket] pick_in_range [OF False u2] by auto
  then obtain c where c: "(if ?bucket \<noteq> [] then pick ?bucket ?u2 else pick cardsDb ?u2) = Some c"
    "c \<in> set cardsDb" by blast
  from assms c(2) have pre: "\<not> fault ?w2 (length (issued ?w2))"
    "\<forall>i \<in> set (inventory (store ?w2)). inv_id i < inventory_id_seq (store ?w2)"
    "uid \<in> set (map tg_id (users (store ?w2)))"
    "card_id c \<in> set (map card_id (cards (store ?w2)))"
    by (auto simp: pack_ready_def no_faults_def wf_ids_def)
  note q = query_insert_inventory_ok [OF pre, of "InsertInventory uid (card_id c)"]
  have run: "pack_round uid cardsDb w = (Inr c, fst (snd (query (InsertInventory uid (card_id c)) (insert_inventory uid (card_id c)) ?w2), ()))"
    using False c(1) q
    by (cases "?bucket = []")
       (simp_all add: pack_round_def random_def Let_def bind_io_def return_io_def)
  have "pack_ready uid cardsDb (fst (snd (query (InsertInventory uid (card_id c)) (insert_inventory uid (card_id c)) ?w2), ()))"
    using assms unfolding q
    by (auto simp: pack_ready_def no_faults_def rng_ok_def wf_ids_def)
  with run show ?thesis by blast
next
  case True
  let ?u1 = "rng w (rng_no w)" and ?u2 = "rng w (Suc (rng_no w))"
  obtain r0 rd where ch: "weightedChoice (fst getRaritiesAndWeights) (snd getRaritiesAndWeights) ?u1 = Some r0"
    "map_of RARITY_DEFAULTS r0 = Some rd"
    using weightedChoice_rarity by blast
  let ?nm = "''Card '' @ string_of_int (\<lfloor>?u2 * 9000\<rfloor> + 1000)"
  let ?w2 = "w\<lparr>rng_no := Suc (Suc (rng_no w))\<rparr>"
  let ?c = "\<lparr>card_id = cards_id_seq (store w), card_name = ?nm, card_rarity = r0,
                 image_file_id = None, coins_per_hour = default_coins_per_hour rd\<rparr>"
  let ?w3 = "?w2\<lparr>issued := issued w @ [InsertCard ?nm r0 (default_coins_per_hour rd)],
              store := (store w)\<lparr>cards_id_seq := cards_id_seq (store w) + 1,
                cards := cards (store w) @ [?c]\<rparr>\<rparr>"
  from assms have pre1: "\<not> fault ?w2 (length (issued ?w2))"
    "\<forall>c \<in> set (cards (store ?w2)). card_id c < cards_id_seq (store ?w2)"
    by (auto simp: pack_ready_def no_faults_def wf_ids_def)
  have q1: "query (InsertCard ?nm r0 (default_coins_per_hour rd))
              (insert_card ?nm r0 (default_coins_per_hour rd)) ?w2 = (Inr ?c, ?w3)"
    using query_insert_card_ok [OF pre1, of "InsertCard ?nm r0 (default_coins_per_hour rd)" ?nm r0 "default_coins_per_hour rd"]
    by simp
  from assms have pre2: "\<not> fault ?w3 (length (issued ?w3))"
    "\<forall>i \<in> set (inventory (store ?w3)). inv_id i < inventory_id_seq (store ?w3)"
    "uid \<in> set (map tg_id (users (store ?w3)))"
    "card_id ?c \<in> set (map card_id (cards (store ?w3)))"
    by (auto simp: pack_ready_def no_faults_def wf_ids_def)
  note q2 = query_insert_inventory_ok [OF pre2, of "InsertInventory uid (card_id ?c)"]
  have run: "pack_round uid cardsDb w =
      (Inr ?c, fst (snd (query (InsertInventory uid (card_id ?c)) (insert_inventory uid (card_id ?c)) ?w3), ()))"
    using True ch q1 q2
    by (simp add: pack_round_def random_def Let_def bind_io_def return_io_def)
  have "pack_ready uid cardsDb (fst (snd (query (InsertInventory uid (card_id ?c)) (insert_inventory uid (card_id ?c)) ?w3), ()))"
    using assms True unfolding q2
    by (auto simp: pack_ready_def no_faults_def rng_ok_def wf_ids_def)
  with run show ?thesis by blast
qed

lemma openPack_ok:
  "pack_ready uid cardsDb w \<Longrightarrow>
     \<exists>got' w'. openPack n uid cardsDb got w = (Inr got', w') \<and> pack_ready uid cardsDb w'"
proof (induction n arbitrary: got w)
  case 0
  then show ?case by simp
next
  case (Suc n)
  from pack_round_ok [OF Suc.prems] obtain c w1 where
    step: "pack_round uid cardsDb w = (Inr c, w1)" and ready: "pack_ready uid cardsDb w1"
    by blast
  from Suc.IH [OF ready, of "got @ [c]"] step show ?case by simp
qed

subsection \<open>Evaluating a handler on a concrete world\<close>

text \<open>The definitions to unfold when a handler runs on one of the concrete worlds.\<close>

lemmas eval_defs = buyPack_def bind_io_def pool_connect_def query_def select_coins_def
      update_coins_sub_def select_cards_def pack_round_def random_def weightedChoice_def
      getRaritiesAndWeights_def RARITY_DEFAULTS_def insert_card_def insert_inventory_def
      throw_def return_io_def Let_def

lemma five_rounds: "5 = Suc (Suc (Suc (Suc (Suc 0))))"
  by simp

subsection \<open>buyPack\<close>

lemma first_row_update:
  "(case filter (\<lambda>u. tg_id u = uid) (map (\<lambda>u. if tg_id u = uid' then u\<lparr>coins := g (coins u)\<rparr> else u) us) of
      [] \<Rightarrow> 0 | u # _ \<Rightarrow> coins u) =
   (if uid = uid' \<and> uid \<in> set (map tg_id us)
    then g (case filter (\<lambda>u. tg_id u = uid) us of [] \<Rightarrow> 0 | u # _ \<Rightarrow> coins u)
    else (case filter (\<lambda>u. tg_id u = uid) us of [] \<Rightarrow> 0 | u # _ \<Rightarrow> coins u))"
  by (induction us) auto

lemma balance_of_update:
  "balance_of (d\<lparr>users := map (\<lambda>u. if tg_id u = uid' then u\<lparr>coins := g (coins u)\<rparr> else u) (users d)\<rparr>) uid =
     (if uid = uid' \<and> uid \<in> set (map tg_id (users d)) then g (balance_of d uid) else balance_of d uid)"
  unfolding balance_of_def using first_row_update [of uid uid' g "users d"] by simp

lemma select_coins_rows:
  "(case map coins (filter (\<lambda>u. tg_id u = uid) (users d)) of [] \<Rightarrow> 0 | c # _ \<Rightarrow> c) = balance_of d uid"
  by (simp add: balance_of_def split: list.splits)

text \<open>The world after the first requests of buyPack.\<close>

lemma buyPack_refused:
  assumes "\<not> fault w (length (issued w))" "\<not> fault w (Suc (length (issued w)))"
      and "balance_of (store w) uid < price"
  shows "buyPack uid count price w = (Inl InsufficientFunds, w\<lparr>issued := issued w @ [Connect, SelectCoins uid]\<rparr>)"
  using assms
  by (simp add: buyPack_def bind_io_def pool_connect_def query_def select_coins_def Let_def
      throw_def select_coins_rows)

lemma buyPack_refused_store:
  assumes "balance_of (store w) uid < price"
  shows "store (snd (buyPack uid count price w)) = store w \<and> (\<exists>e. fst (buyPack uid count price w) = Inl e)"
  using assms
  by (simp add: buyPack_def bind_io_def pool_connect_def query_def select_coins_def Let_def
      throw_def select_coins_rows)

lemma buyPack_paid:
  assumes "\<not> fault w (length (issued w))" "\<not> fault w (Suc (length (issued w)))"
      "\<not> fault w (Suc (Suc (length (issued w))))"
      and "price \<le> balance_of (store w) uid"
  shows "buyPack uid count price w =
           bind_io (query SelectCards select_cards) (\<lambda>cardsDb. openPack (nat count) uid cardsDb [])
             (w\<lparr>issued := issued w @ [Connect, SelectCoins uid, DebitCoins price uid],
                store := (store w)\<lparr>users := map (\<lambda>u. if tg_id u = uid then u\<lparr>coins := coins u - price\<rparr> else u)
                                              (users (store w))\<rparr>\<rparr>)"
proof -
  let ?w1 = "w\<lparr>issued := issued w @ [Connect]\<rparr>"
  let ?w2 = "w\<lparr>issued := issued w @ [Connect, SelectCoins uid]\<rparr>"
  let ?w3 = "w\<lparr>issued := issued w @ [Connect, SelectCoins uid, DebitCoins price uid],
                store := (store w)\<lparr>users := map (\<lambda>u. if tg_id u = uid then u\<lparr>coins := coins u - price\<rparr> else u)
                                              (users (store w))\<rparr>\<rparr>"
  have c: "pool_connect w = (Inr (), ?w1)"
    using assms(1) by (simp add: pool_connect_def)
  have s: "query (SelectCoins uid) (select_coins uid) ?w1 =
             (Inr (map coins (filter (\<lambda>u. tg_id u = uid) (users (store w)))), ?w2)"
    using assms(2) by (simp add: query_def select_coins_def)
  have d: "query (DebitCoins price uid) (update_coins_sub price uid) ?w2 = (Inr (), ?w3)"
    using assms(3) by (simp add: query_def update_coins_sub_def)
  from assms(4) show ?thesis
    by (simp add: buyPack_def bind_io_def c s d select_coins_rows)
qed

lemma select_cards_then_openPack:
  assumes "bind_io (query SelectCards select_cards) (\<lambda>cardsDb. openPack n uid cardsDb []) w = (r, w')"
  shows "users (store w') = users (store w) \<and> trades (store w') = trades (store w) \<and>
     fault w' = fault w \<and> rng w' = rng w \<and>
     (\<exists>new. inventory (store w') = inventory (store w) @ new \<and>
            (\<forall>i \<in> set new. user_id i = uid) \<and>
            (case r of Inl e \<Rightarrow> length new \<le> n | Inr g \<Rightarrow> length new = n))"
proof (cases "fault w (length (issued w))")
  case True
  with assms show ?thesis by (auto simp: bind_io_def query_def Let_def)
next
  case False
  with assms have run: "openPack n uid (cards (store w)) [] (w\<lparr>issued := issued w @ [SelectCards]\<rparr>) = (r, w')"
    by (simp add: bind_io_def query_def Let_def select_cards_def)
  from openPack_effect [OF run] show ?thesis by (cases r) auto
qed

lemma select_cards_then_openPack_ok:
  assumes "no_faults w" "rng_ok w" "wf_ids (store w)" "uid \<in> set (map tg_id (users (store w)))"
  shows "\<exists>got w'. bind_io (query SelectCards select_cards) (\<lambda>cardsDb. openPack n uid cardsDb []) w = (Inr got, w')
           \<and> length got = n \<and> no_faults w' \<and> rng_ok w' \<and> wf_ids (store w')"
proof -
  let ?w1 = "w\<lparr>issued := issued w @ [SelectCards]\<rparr>"
  from assms have ready: "pack_ready uid (cards (store w)) ?w1"
    by (simp add: pack_ready_def no_faults_def rng_ok_def)
  from openPack_ok [OF ready, of n "[]"] obtain got w' where
    run: "openPack n uid (cards (store w)) [] ?w1 = (Inr got, w')" and r': "pack_ready uid (cards (store w)) w'"
    by blast
  from assms(1) run have "bind_io (query SelectCards select_cards) (\<lambda>cardsDb. openPack n uid cardsDb []) w = (Inr got, w')"
    by (simp add: bind_io_def query_def Let_def select_cards_def no_faults_def)
  with openPack_got [OF run] r' show ?thesis by (auto simp: pack_ready_def)
qed


lemma balance_of_no_account:
  "uid \<notin> set (map tg_id (users d)) \<Longrightarrow> balance_of d uid = 0"
proof -
  assume "uid \<notin> set (map tg_id (users d))"
  then have "filter (\<lambda>u. tg_id u = uid) (users d) = []"
    by (auto simp: filter_empty_conv)
  then show ?thesis by (simp add: balance_of_def)
qed

lemma card_name_5500: "string_of_int 5500 = ''5500''"
  by (simp add: string_of_int_def digits.simps [of 5500] digits.simps [of 550]
      digits.simps [of 55] digits.simps [of 5])

subsection \<open>free_pack\<close>

lemma insert_user_result: "fst (insert_user uid d) = Inr ()"
  by (simp add: insert_user_def)

lemma insert_user_frame:
  "cards (snd (insert_user uid d)) = cards d \<and> cards_id_seq (snd (insert_user uid d)) = cards_id_seq d \<and>
   inventory (snd (insert_user uid d)) = inventory d \<and>
   inventory_id_seq (snd (insert_user uid d)) = inventory_id_seq d \<and>
   trades (snd (insert_user uid d)) = trades d \<and>
   uid \<in> set (map tg_id (users (snd (insert_user uid d))))"
  by (simp add: insert_user_def)

lemma insert_user_last_pack: "last_pack_of (snd (insert_user uid d)) v = last_pack_of d v"
proof (cases "uid \<in> set (map tg_id (users d))")
  case True
  then show ?thesis by (simp add: insert_user_def)
next
  case False
  then have "filter (\<lambda>u. tg_id u = uid) (users d) = []"
    by (auto simp: filter_empty_conv)
  with False show ?thesis
    by (auto simp: insert_user_def last_pack_of_def split: list.splits)
qed

lemma first_row_last_pack:
  "uid \<in> set (map tg_id us) \<Longrightarrow>
   (case filter (\<lambda>u. tg_id u = uid) (map (\<lambda>u. if tg_id u = uid then u\<lparr>last_pack := now\<rparr> else u) us) of
      [] \<Rightarrow> 0 | u # _ \<Rightarrow> last_pack u) = now"
  by (induction us) auto

text \<open>What the handler reads for a user with an account: the stored time, shifted.\<close>

lemma select_last_pack_rows:
  assumes "uid \<in> set (map tg_id (users d))"
  shows "(case map (\<lambda>u. last_pack u - off) (filter (\<lambda>u. tg_id u = uid) (users d)) of
            [] \<Rightarrow> 0 | t # _ \<Rightarrow> t) = last_pack_of d uid - off"
proof -
  from assms have "filter (\<lambda>u. tg_id u = uid) (users d) \<noteq> []"
    by (auto simp: filter_empty_conv)
  then show ?thesis by (simp add: last_pack_of_def split: list.splits)
qed

text \<open>The call during the cooldown, and the call after it.\<close>

lemma free_pack_active:
  assumes "no_faults w" and "now - (last_pack_of (store w) uid - off) < cd * 60 * 1000"
  shows "\<exists>w'. free_pack cd off uid now w =
            (Inl (CooldownActive (ceil_minutes (cd * 60 * 1000 - (now - (last_pack_of (store w) uid - off))))), w') \<and>
          last_pack_of (store w') uid = last_pack_of (store w) uid \<and>
          inventory (store w') = inventory (store w) \<and> cards (store w') = cards (store w) \<and>
          no_faults w' \<and> (rng_ok w \<longrightarrow> rng_ok w') \<and> (wf_ids (store w) \<longrightarrow> wf_ids (store w'))"
proof -
  let ?d1 = "snd (insert_user uid (store w))"
  let ?w1 = "w\<lparr>issued := issued w @ [InsertUser uid], store := ?d1\<rparr>"
  let ?w2 = "w\<lparr>issued := issued w @ [InsertUser uid, SelectLastPack uid], store := ?d1\<rparr>"
  from assms(1) have nf: "\<not> fault w (length (issued w))" "\<not> fault w (Suc (length (issued w)))"
    by (simp_all add: no_faults_def)
  have e: "ensureUser uid w = (Inr (), ?w1)"
    using nf(1) insert_user_result [of uid "store w"]
    by (cases "insert_user uid (store w)") (simp add: ensureUser_def query_def)
  have s: "query (SelectLastPack uid) (select_last_pack off uid) ?w1 =
             (Inr (map (\<lambda>u. last_pack u - off) (filter (\<lambda>u. tg_id u = uid) (users ?d1))), ?w2)"
    using nf(2) by (simp add: query_def select_last_pack_def)
  have mem: "uid \<in> set (map tg_id (users ?d1))"
    using insert_user_frame [of uid "store w"] by simp
  have run: "free_pack cd off uid now w =
            (Inl (CooldownActive (ceil_minutes (cd * 60 * 1000 - (now - (last_pack_of (store w) uid - off))))), ?w2)"
    using assms(2)
    by (simp add: free_pack_def bind_io_def e s select_last_pack_rows [OF mem]
        insert_user_last_pack throw_def)
  have "wf_ids (store w) \<longrightarrow> wf_ids (store ?w2)"
    by (simp add: wf_ids_def insert_user_frame)
  with run assms(1) show ?thesis
    by (simp add: insert_user_last_pack insert_user_frame no_faults_def rng_ok_def)
qed

lemma free_pack_open:
  assumes "no_faults w" "rng_ok w" "wf_ids (store w)"
      and "\<not> now - (last_pack_of (store w) uid - off) < cd * 60 * 1000"
  shows "\<exists>got w'. free_pack cd off uid now w = (Inr got, w') \<and> length got = 5 \<and>
          last_pack_of (store w') uid = now \<and>
          (\<exists>new. inventory (store w') = inventory (store w) @ new \<and> length new = 5 \<and>
                 (\<forall>i \<in> set new. user_id i = uid)) \<and>
          no_faults w' \<and> rng_ok w' \<and> wf_ids (store w')"
proof -
  let ?d1 = "snd (insert_user uid (store w))"
  let ?d3 = "?d1\<lparr>users := map (\<lambda>u. if tg_id u = uid then u\<lparr>last_pack := now\<rparr> else u) (users ?d1)\<rparr>"
  let ?w1 = "w\<lparr>issued := issued w @ [InsertUser uid], store := ?d1\<rparr>"
  let ?w2 = "w\<lparr>issued := issued w @ [InsertUser uid, SelectLastPack uid], store := ?d1\<rparr>"
  let ?w3 = "w\<lparr>issued := issued w @ [InsertUser uid, SelectLastPack uid, UpdateLastPack now uid],
               store := ?d3\<rparr>"
  from assms(1) have nf: "\<not> fault w (length (issued w))" "\<not> fault w (Suc (length (issued w)))"
    "\<not> fault w (Suc (Suc (length (issued w))))"
    by (simp_all add: no_faults_def)
  have e: "ensureUser uid w = (Inr (), ?w1)"
    using nf(1) insert_user_result [of uid "store w"]
    by (cases "insert_user uid (store w)") (simp add: ensureUser_def query_def)
  have s: "query (SelectLastPack uid) (select_last_pack off uid) ?w1 =
             (Inr (map (\<lambda>u. last_pack u - off) (filter (\<lambda>u. tg_id u = uid) (users ?d1))), ?w2)"
    using nf(2) by (simp add: query_def select_last_pack_def)
  have u: "query (UpdateLastPack now uid) (update_last_pack now uid) ?w2 = (Inr (), ?w3)"
    using nf(3) by (simp add: query_def update_last_pack_def)
  have mem1: "uid \<in> set (map tg_id (users ?d1))"
    using insert_user_frame [of uid "store w"] by simp
  have shape: "free_pack cd off uid now w =
      bind_io (query SelectCards select_cards) (\<lambda>cardsDb. openPack 5 uid cardsDb []) ?w3"
    using assms(4)
    by (simp add: free_pack_def bind_io_def e s u select_last_pack_rows [OF mem1]
        insert_user_last_pack)
  from mem1 have mem: "uid \<in> set (map tg_id (users (store ?w3)))"
    by (auto simp: image_iff)
  from assms(1-3) have pre: "no_faults ?w3" "rng_ok ?w3" "wf_ids (store ?w3)"
    by (simp_all add: no_faults_def rng_ok_def wf_ids_def insert_user_frame)
  from select_cards_then_openPack_ok [OF pre mem, of 5] obtain got w' where
    run: "bind_io (query SelectCards select_cards) (\<lambda>cardsDb. openPack 5 uid cardsDb []) ?w3 = (Inr got, w')"
    and rest: "length got = 5" "no_faults w'" "rng_ok w'" "wf_ids (store w')"
    by blast
  from select_cards_then_openPack [OF run] obtain new where
    us: "users (store w') = users (store ?w3)"
    and new: "inventory (store w') = inventory (store ?w3) @ new" "\<forall>i \<in> set new. user_id i = uid"
      "length new = 5"
    by auto
  from us have "last_pack_of (store w') uid = last_pack_of ?d3 uid"
    by (simp add: last_pack_of_def)
  also have "\<dots> = now"
    using first_row_last_pack [OF mem1, of now] by (simp add: last_pack_of_def)
  finally have lp: "last_pack_of (store w') uid = now" .
  from new have "inventory (store w') = inventory (store w) @ new"
    by (simp add: insert_user_frame)
  with shape run rest lp new(2,3) show ?thesis by auto
qed

text \<open>
  The cooldown as the handler keeps it, for every offset \<open>off\<close> of the process from
  UTC: the time it compares with is the stored one minus \<open>off\<close>. After a pack opened
  at \<open>now\<close>, a call at \<open>now2\<close> is refused when \<open>now2 - now + off\<close> is less than the
  cooldown and opens a pack otherwise.
\<close>

lemma free_pack_cooldown_shifted:
  assumes "no_faults w" "rng_ok w" "wf_ids (store w)"
  shows "(now - (last_pack_of (store w) uid - off) < cd * 60 * 1000 \<longrightarrow>
            fst (free_pack cd off uid now w) =
              Inl (CooldownActive \<lceil>real_of_int (cd * 60 * 1000 - (now - (last_pack_of (store w) uid - off))) / 60000\<rceil>) \<and>
            last_pack_of (store (snd (free_pack cd off uid now w))) uid = last_pack_of (store w) uid \<and>
            inventory (store (snd (free_pack cd off uid now w))) = inventory (store w)) \<and>
         (\<not> now - (last_pack_of (store w) uid - off) < cd * 60 * 1000 \<longrightarrow>
            (\<exists>got w1. free_pack cd off uid now w = (Inr got, w1) \<and> length got = 5 \<and>
               last_pack_of (store w1) uid = now \<and>
               (\<exists>new. inventory (store w1) = inventory (store w) @ new \<and> length new = 5 \<and>
                      (\<forall>i \<in> set new. user_id i = uid)) \<and>
               (\<forall>now2. now2 - (now - off) < cd * 60 * 1000 \<longrightarrow>
                  (\<exists>w2. free_pack cd off uid now2 w1 =
                       (Inl (CooldownActive \<lceil>real_of_int (cd * 60 * 1000 - (now2 - (now - off))) / 60000\<rceil>), w2) \<and>
                     inventory (store w2) = inventory (store w1) \<and>
                     (\<forall>now3. \<not> now3 - (now - off) < cd * 60 * 1000 \<longrightarrow>
                        (\<exists>got3 w3. free_pack cd off uid now3 w2 = (Inr got3, w3) \<and> length got3 = 5))))))"
proof (intro conjI impI)
  assume act: "now - (last_pack_of (store w) uid - off) < cd * 60 * 1000"
  from free_pack_active [OF assms(1) act] obtain w' where
    "free_pack cd off uid now w =
       (Inl (CooldownActive (ceil_minutes (cd * 60 * 1000 - (now - (last_pack_of (store w) uid - off))))), w')"
    "last_pack_of (store w') uid = last_pack_of (store w) uid"
    "inventory (store w') = inventory (store w)"
    by blast
  then show "fst (free_pack cd off uid now w) =
      Inl (CooldownActive \<lceil>real_of_int (cd * 60 * 1000 - (now - (last_pack_of (store w) uid - off))) / 60000\<rceil>)"
    "last_pack_of (store (snd (free_pack cd off uid now w))) uid = last_pack_of (store w) uid"
    "inventory (store (snd (free_pack cd off uid now w))) = inventory (store w)"
    by (simp_all add: ceil_minutes_ceiling)
next
  assume opn: "\<not> now - (last_pack_of (store w) uid - off) < cd * 60 * 1000"
  from free_pack_open [OF assms opn] obtain got w1 where
    first: "free_pack cd off uid now w = (Inr got, w1)" "length got = 5" "last_pack_of (store w1) uid = now"
      "\<exists>new. inventory (store w1) = inventory (store w) @ new \<and> length new = 5 \<and>
                      (\<forall>i \<in> set new. user_id i = uid)"
    and inv1: "no_faults w1" "rng_ok w1" "wf_ids (store w1)"
    by blast
  have second: "\<exists>w2. free_pack cd off uid now2 w1 =
                       (Inl (CooldownActive \<lceil>real_of_int (cd * 60 * 1000 - (now2 - (now - off))) / 60000\<rceil>), w2) \<and>
                     inventory (store w2) = inventory (store w1) \<and>
                     (\<forall>now3. \<not> now3 - (now - off) < cd * 60 * 1000 \<longrightarrow>
                        (\<exists>got3 w3. free_pack cd off uid now3 w2 = (Inr got3, w3) \<and> length got3 = 5))"
    if within: "now2 - (now - off) < cd * 60 * 1000" for now2
  proof -
    from within first(3) have act2: "now2 - (last_pack_of (store w1) uid - off) < cd * 60 * 1000" by simp
    from free_pack_active [OF inv1(1) act2] inv1 obtain w2 where
      snd_call: "free_pack cd off uid now2 w1 =
        (Inl (CooldownActive (ceil_minutes (cd * 60 * 1000 - (now2 - (last_pack_of (store w1) uid - off))))), w2)"
      and keep: "last_pack_of (store w2) uid = last_pack_of (store w1) uid"
        "inventory (store w2) = inventory (store w1)"
      and inv2: "no_faults w2" "rng_ok w2" "wf_ids (store w2)"
      by blast
    have third: "\<exists>got3 w3. free_pack cd off uid now3 w2 = (Inr got3, w3) \<and> length got3 = 5"
      if after: "\<not> now3 - (now - off) < cd * 60 * 1000" for now3
    proof -
      from after keep(1) first(3) have "\<not> now3 - (last_pack_of (store w2) uid - off) < cd * 60 * 1000"
        by simp
      from free_pack_open [OF inv2 this] show ?thesis by blast
    qed
    from snd_call first(3) have "free_pack cd off uid now2 w1 =
        (Inl (CooldownActive \<lceil>real_of_int (cd * 60 * 1000 - (now2 - (now - off))) / 60000\<rceil>), w2)"
      by (simp add: ceil_minutes_ceiling)
    with keep(2) third show ?thesis by blast
  qed
  from first second
  show "\<exists>got w1. free_pack cd off uid now w = (Inr got, w1) \<and> length got = 5 \<and>
               last_pack_of (store w1) uid = now \<and>
               (\<exists>new. inventory (store w1) = inventory (store w) @ new \<and> length new = 5 \<and>
                      (\<forall>i \<in> set new. user_id i = uid)) \<and>
               (\<forall>now2. now2 - (now - off) < cd * 60 * 1000 \<longrightarrow>
                  (\<exists>w2. free_pack cd off uid now2 w1 =
                       (Inl (CooldownActive \<lceil>real_of_int (cd * 60 * 1000 - (now2 - (now - off))) / 60000\<rceil>), w2) \<and>
                     inventory (store w2) = inventory (store w1) \<and>
                     (\<forall>now3. \<not> now3 - (now - off) < cd * 60 * 1000 \<longrightarrow>
                        (\<exists>got3 w3. free_pack cd off uid now3 w2 = (Inr got3, w3) \<and> length got3 = 5))))"
    by blast
qed

lemmas free_pack_eval_defs = free_pack_def ensureUser_def insert_user_def select_last_pack_def
  update_last_pack_def last_pack_of_def ceil_minutes_def pick_def eval_defs

subsection \<open>givePassiveIncomeAll\<close>

lemma update_keeps_ids:
  "map tg_id (map (\<lambda>u. if tg_id u = uid then u\<lparr>coins := g (coins u)\<rparr> else u) us) = map tg_id us"
  by (induction us) auto

lemma query_credit_ok:
  assumes "\<not> fault w (length (issued w))"
  shows "query (CreditCoins inc uid) (update_coins_add inc uid) w =
           (Inr (), w\<lparr>issued := issued w @ [CreditCoins inc uid],
                      store := (store w)\<lparr>users := map (\<lambda>u. if tg_id u = uid then u\<lparr>coins := coins u + inc\<rparr> else u)
                                                    (users (store w))\<rparr>\<rparr>)"
  using assms by (simp add: query_def update_coins_add_def)

lemma query_credit_fault:
  assumes "fault w (length (issued w))"
  shows "query (CreditCoins inc uid) (update_coins_add inc uid) w =
           (Inl (QueryFailed ConnectionError), w\<lparr>issued := issued w @ [CreditCoins inc uid]\<rparr>)"
  using assms by (simp add: query_def)

text \<open>The loop over rows none of whose credits is rejected.\<close>

lemma credit_rows_ok:
  assumes "\<forall>n. n < length (issued w) + length (filter (\<lambda>r. 0 < snd r) rows) \<longrightarrow> \<not> fault w n"
      and "distinct (map fst rows)"
  shows "\<exists>w'. credit_rows rows w = (Inr (), w') \<and> fault w' = fault w \<and>
     issued w' = issued w @ map (\<lambda>r. CreditCoins (snd r) (fst r)) (filter (\<lambda>r. 0 < snd r) rows) \<and>
     map tg_id (users (store w')) = map tg_id (users (store w)) \<and>
     (\<forall>v. balance_of (store w') v =
            balance_of (store w) v +
              (if v \<in> set (map tg_id (users (store w)))
               then (case map_of rows v of Some i \<Rightarrow> if 0 < i then i else 0 | None \<Rightarrow> 0)
               else 0))"
  using assms
proof (induction rows arbitrary: w)
  case Nil
  then show ?case by simp
next
  case (Cons r rs)
  obtain u0 i0 where r: "r = (u0, i0)" by (cases r)
  from Cons.prems(2) r have fresh: "map_of rs u0 = None" and dist: "distinct (map fst rs)"
    by (auto simp: map_of_eq_None_iff)
  show ?case
  proof (cases "0 < i0")
    case False
    from Cons.prems(1) r False
    have b: "\<forall>n. n < length (issued w) + length (filter (\<lambda>r. 0 < snd r) rs) \<longrightarrow> \<not> fault w n"
      by simp
    from Cons.IH [OF b dist] obtain w' where
      ih: "credit_rows rs w = (Inr (), w')" "fault w' = fault w"
        "issued w' = issued w @ map (\<lambda>r. CreditCoins (snd r) (fst r)) (filter (\<lambda>r. 0 < snd r) rs)"
        "map tg_id (users (store w')) = map tg_id (users (store w))"
        "\<forall>v. balance_of (store w') v =
            balance_of (store w) v +
              (if v \<in> set (map tg_id (users (store w)))
               then (case map_of rs v of Some i \<Rightarrow> if 0 < i then i else 0 | None \<Rightarrow> 0)
               else 0)"
      by blast
    from ih r False fresh show ?thesis by auto
  next
    case True
    let ?w1 = "w\<lparr>issued := issued w @ [CreditCoins i0 u0],
                 store := (store w)\<lparr>users := map (\<lambda>u. if tg_id u = u0 then u\<lparr>coins := coins u + i0\<rparr> else u)
                                                    (users (store w))\<rparr>\<rparr>"
    from Cons.prems(1) r True have nf: "\<not> fault w (length (issued w))" by simp
    note q = query_credit_ok [OF nf, of i0 u0]
    from Cons.prems(1) r True
    have b: "\<forall>n. n < length (issued ?w1) + length (filter (\<lambda>r. 0 < snd r) rs) \<longrightarrow> \<not> fault ?w1 n"
      by simp
    from Cons.IH [OF b dist] obtain w' where
      ih: "credit_rows rs ?w1 = (Inr (), w')" "fault w' = fault ?w1"
        "issued w' = issued ?w1 @ map (\<lambda>r. CreditCoins (snd r) (fst r)) (filter (\<lambda>r. 0 < snd r) rs)"
        "map tg_id (users (store w')) = map tg_id (users (store ?w1))"
        "\<forall>v. balance_of (store w') v =
            balance_of (store ?w1) v +
              (if v \<in> set (map tg_id (users (store ?w1)))
               then (case map_of rs v of Some i \<Rightarrow> if 0 < i then i else 0 | None \<Rightarrow> 0)
               else 0)"
      by blast
    have ids: "map tg_id (users (store ?w1)) = map tg_id (users (store w))"
      using update_keeps_ids [of u0 "\<lambda>c. c + i0" "users (store w)"] by simp
    have b1: "\<And>v. balance_of (store ?w1) v =
        (if v = u0 \<and> v \<in> set (map tg_id (users (store w))) then balance_of (store w) v + i0
         else balance_of (store w) v)"
      using balance_of_update [where d = "store w" and uid' = u0 and g = "\<lambda>c. c + i0"] by simp
    have run: "credit_rows (r # rs) w = (Inr (), w')"
      using r True q ih(1) by simp
    have bal: "\<forall>v. balance_of (store w') v =
            balance_of (store w) v +
              (if v \<in> set (map tg_id (users (store w)))
               then (case map_of (r # rs) v of Some i \<Rightarrow> if 0 < i then i else 0 | None \<Rightarrow> 0)
               else 0)"
    proof
      fix v
      from ih(5) have "balance_of (store w') v =
            balance_of (store ?w1) v +
              (if v \<in> set (map tg_id (users (store ?w1)))
               then (case map_of rs v of Some i \<Rightarrow> if 0 < i then i else 0 | None \<Rightarrow> 0)
               else 0)" by blast
      then show "balance_of (store w') v =
            balance_of (store w) v +
              (if v \<in> set (map tg_id (users (store w)))
               then (case map_of (r # rs) v of Some i \<Rightarrow> if 0 < i then i else 0 | None \<Rightarrow> 0)
               else 0)"
        unfolding ids b1 using r True fresh by (cases "v = u0") simp_all
    qed
    from run ih(2,3,4) ids bal r True show ?thesis by simp
  qed
qed

lemma credit_rows_append:
  "credit_rows (xs @ ys) w =
     (case credit_rows xs w of (Inl e, w1) \<Rightarrow> (Inl e, w1) | (Inr _, w1) \<Rightarrow> credit_rows ys w1)"
  by (induction xs arbitrary: w) (auto split: prod.splits sum.splits)

text \<open>The rows of the income query, in whatever order they come.\<close>

lemma income_rows_set:
  "set (income_rows rank d) = (\<lambda>u. (tg_id u, income_of d (tg_id u))) ` set (users d)"
  by (simp add: income_rows_def)

lemma income_rows_users: "fst ` set (income_rows rank d) = set (map tg_id (users d))"
  by (auto simp: income_rows_set image_iff)

lemma income_rows_distinct:
  assumes "distinct (map tg_id (users d))"
  shows "distinct (map fst (income_rows rank d))"
proof -
  let ?f = "\<lambda>u. (tg_id u, income_of d (tg_id u))"
  from assms have "distinct (map fst (map ?f (users d)))" by (simp add: o_def)
  then have "distinct (map ?f (users d)) \<and> inj_on fst (set (map ?f (users d)))"
    by (simp only: distinct_map)
  then have "distinct (income_rows rank d) \<and> inj_on fst (set (income_rows rank d))"
    by (simp add: income_rows_def)
  then show ?thesis by (simp only: distinct_map)
qed

lemma income_rows_lookup:
  assumes "distinct (map tg_id (users d))" and "v \<in> set (map tg_id (users d))"
  shows "map_of (income_rows rank d) v = Some (income_of d v)"
proof -
  from assms(2) have "(v, income_of d v) \<in> set (income_rows rank d)"
    by (auto simp: income_rows_set)
  with income_rows_distinct [OF assms(1)] show ?thesis by (rule map_of_is_SomeI)
qed

lemma income_rows_value:
  "r \<in> set (income_rows rank d) \<Longrightarrow> snd r = income_of d (fst r)"
  by (auto simp: income_rows_set)

lemma income_of_no_cards:
  "filter (\<lambda>i. user_id i = uid) (inventory d) = [] \<Longrightarrow> income_of d uid = 0"
  by (simp add: income_of_def)

text \<open>The join of the income query finds the one card of an entry.\<close>

lemma joined_card:
  "distinct (map card_id cs) \<Longrightarrow>
     sum_list (map coins_per_hour (filter (\<lambda>c. card_id c = k) cs)) =
       (case find (\<lambda>c. card_id c = k) cs of None \<Rightarrow> 0 | Some c \<Rightarrow> coins_per_hour c)"
proof (induction cs)
  case Nil
  then show ?case by simp
next
  case (Cons c cs)
  show ?case
  proof (cases "card_id c = k")
    case True
    with Cons.prems have "filter (\<lambda>c. card_id c = k) cs = []"
      by (auto simp: filter_empty_conv image_iff)
    with True show ?thesis by simp
  next
    case False
    with Cons show ?thesis by simp
  qed
qed

lemma sum_list_of_concat: "sum_list (concat xss) = sum_list (map sum_list (xss :: int list list))"
  by (induction xss) simp_all

lemma income_of_owned_income:
  assumes "distinct (map card_id (cards d))"
  shows "income_of d uid = owned_income d uid"
proof -
  have "income_of d uid =
      sum_list (map (\<lambda>i. sum_list (map coins_per_hour (filter (\<lambda>c. card_id c = inv_card_id i) (cards d))))
                    (filter (\<lambda>i. user_id i = uid) (inventory d)))"
    by (simp add: income_of_def sum_list_of_concat o_def)
  also have "\<dots> = owned_income d uid"
    unfolding owned_income_def using joined_card [OF assms] by simp
  finally show ?thesis .
qed

text \<open>The tick up to the loop.\<close>

lemma givePassiveIncomeAll_rows:
  assumes "\<not> fault w (length (issued w))" "\<not> fault w (Suc (length (issued w)))"
  shows "givePassiveIncomeAll rank w =
           credit_rows (income_rows rank (store w))
             (w\<lparr>issued := issued w @ [Connect, SelectIncome]\<rparr>)"
proof -
  have c: "pool_connect w = (Inr (), w\<lparr>issued := issued w @ [Connect]\<rparr>)"
    using assms(1) by (simp add: pool_connect_def)
  have s: "query SelectIncome (select_income rank) (w\<lparr>issued := issued w @ [Connect]\<rparr>) =
      (Inr (income_rows rank (store w)), w\<lparr>issued := issued w @ [Connect, SelectIncome]\<rparr>)"
    using assms(2) by (simp add: query_def select_income_def)
  show ?thesis by (simp add: givePassiveIncomeAll_def bind_io_def c s)
qed


lemmas income_eval_defs = givePassiveIncomeAll_def income_tick_def bind_io_def pool_connect_def
  query_def select_income_def income_rows_def income_of_def update_coins_add_def balance_of_def
  Let_def

subsection \<open>The trade handlers on the concrete worlds\<close>

lemmas trade_eval_defs = trade_accept_def trade_reject_def bind_io_def query_def select_trade_def
  update_inventory_owner_def update_trade_status_def throw_def status_of_def target_of_def
  read_bigint_def

lemma world_trade_rejected_eval:
  "world_trade_rejected =
     world_trades\<lparr>
       issued := [UpdateTradeStatus ''rejected'' 1],
       store := (store world_trades)\<lparr>
         trades := [\<lparr>trade_id = 1, from_user = 10, to_user = 20, offered_inventory_id = 5,
                           requested_inventory_id = None, status = ''rejected''\<rparr>,
                         \<lparr>trade_id = 2, from_user = 10, to_user = 30, offered_inventory_id = 5,
                           requested_inventory_id = None, status = ''pending''\<rparr>]\<rparr>\<rparr>"
  by (simp add: world_trade_rejected_def world_trades_def trade_eval_defs)

section \<open>The claims\<close>

text \<open>
  C1 (counterexample). User 20 is the target of trade 1 and has rejected it: the
  status of trade 1 is rejected, not pending. User 20 now accepts trade 1. The
  handler does not fail with AlreadyResolved: it never reads the status, and
  answers NotTarget.
\<close>

theorem trade_accept_resolved_counterexample:
  "status_of (store world_trade_rejected) 1 = [''rejected''] \<and>
   target_of (store world_trade_rejected) 1 = [20] \<and>
   fst (trade_accept 1 20 world_trade_rejected) = Inl NotTarget \<and>
   fst (trade_accept 1 20 world_trade_rejected) \<noteq> Inl AlreadyResolved"
  by (simp add: world_trade_rejected_eval world_trades_def trade_eval_defs)

text \<open>
  C1 (amended). Without rejected requests, trade_accept fails with NotFound when no
  trade has the id, and with NotTarget when the acting user is not the target of the
  trade; in both cases nothing is written. Whatever the status of the trade, and
  whether requests are rejected or not, no call fails with AlreadyResolved: the
  status is never read.
\<close>

theorem trade_accept_contract:
  assumes "no_faults w"
  shows "(filter (\<lambda>t. trade_id t = trId) (trades (store w)) = [] \<longrightarrow>
            fst (trade_accept trId uid w) = Inl NotFound \<and>
            store (snd (trade_accept trId uid w)) = store w) \<and>
         (\<forall>tr rest. filter (\<lambda>t. trade_id t = trId) (trades (store w)) = tr # rest \<and> to_user tr \<noteq> uid \<longrightarrow>
            fst (trade_accept trId uid w) = Inl NotTarget \<and>
            store (snd (trade_accept trId uid w)) = store w) \<and>
         fst (trade_accept trId uid w) \<noteq> Inl AlreadyResolved"
proof -
  from assms have nf: "\<not> fault w (length (issued w))"
    by (simp add: no_faults_def)
  then show ?thesis
    by (auto simp: trade_accept_def bind_io_def query_def select_trade_def throw_def
        read_bigint_def split: list.splits)
qed

theorem trade_accept_contract_witness:
  "no_faults world_trade_rejected \<and>
   status_of (store world_trade_rejected) 9 = [] \<and>
   fst (trade_accept 9 20 world_trade_rejected) = Inl NotFound \<and>
   target_of (store world_trade_rejected) 1 = [20] \<and>
   fst (trade_accept 1 30 world_trade_rejected) = Inl NotTarget \<and>
   store (snd (trade_accept 1 30 world_trade_rejected)) = store world_trade_rejected \<and>
   status_of (store world_trade_rejected) 1 = [''rejected''] \<and>
   fst (trade_accept 1 20 world_trade_rejected) \<noteq> Inl AlreadyResolved"
proof -
  have h: "no_faults world_trade_rejected"
    by (simp add: world_trade_rejected_eval world_trades_def no_faults_def)
  have v: "filter (\<lambda>t. trade_id t = 1) (trades (store world_trade_rejected)) =
       \<lparr>trade_id = 1, from_user = 10, to_user = 20, offered_inventory_id = 5,
         requested_inventory_id = None, status = ''rejected''\<rparr> # []"
    "filter (\<lambda>t. trade_id t = 9) (trades (store world_trade_rejected)) = []"
    "status_of (store world_trade_rejected) 9 = []"
    "target_of (store world_trade_rejected) 1 = [20]"
    "status_of (store world_trade_rejected) 1 = [''rejected'']"
    by (simp_all add: world_trade_rejected_eval world_trades_def status_of_def target_of_def)
  from trade_accept_contract [OF h, of 9 20] v
  have a: "fst (trade_accept 9 20 world_trade_rejected) = Inl NotFound" by simp
  from trade_accept_contract [OF h, of 1 30] v
  have b: "fst (trade_accept 1 30 world_trade_rejected) = Inl NotTarget"
    "store (snd (trade_accept 1 30 world_trade_rejected)) = store world_trade_rejected"
    by simp_all
  from trade_accept_contract [OF h, of 1 20]
  have c: "fst (trade_accept 1 20 world_trade_rejected) \<noteq> Inl AlreadyResolved" by simp
  from h v(3,4,5) a b c show ?thesis by simp
qed

text \<open>
  C2 (counterexample). buyPack(7, 2, 20) with the seventh request (the INSERT of the
  second round's card) rejected: the call fails, and the inventory row of the first
  round is in the store. The pack is neither whole nor absent.
\<close>

theorem buyPack_partial_pack_counterexample:
  "inventory (store world_fault_second_round) = [] \<and>
   fst (buyPack 7 2 20 world_fault_second_round) = Inl (QueryFailed ConnectionError) \<and>
   inventory (store (snd (buyPack 7 2 20 world_fault_second_round))) =
     [\<lparr>inv_id = 1, user_id = 7, inv_card_id = 1\<rparr>]"
  by (simp add: world_fault_second_round_def eval_defs numeral_2_eq_2)

text \<open>
  C2 (amended). The pack loop commits row by row. When it ends normally, the
  inventory is the old one followed by \<open>n\<close> new rows of \<open>uid\<close>. When it fails, it
  fails in some round \<open>k + 1\<close> after \<open>k < n\<close> rounds that ended normally, and the
  store is the one those \<open>k\<close> rounds and the failing round left: the inventory is
  the old one followed by exactly the \<open>k\<close> rows of the rounds before, which stay.
\<close>

theorem openPack_commits_per_round:
  "(\<forall>got' w'. openPack n uid cardsDb [] w = (Inr got', w') \<longrightarrow>
      (\<exists>new. inventory (store w') = inventory (store w) @ new \<and> length new = n \<and>
             (\<forall>i \<in> set new. user_id i = uid))) \<and>
   (\<forall>e w'. openPack n uid cardsDb [] w = (Inl e, w') \<longrightarrow>
      (\<exists>k got1 w1 new. k < n \<and> openPack k uid cardsDb [] w = (Inr got1, w1) \<and>
         pack_round uid cardsDb w1 = (Inl e, w') \<and>
         inventory (store w') = inventory (store w) @ new \<and> length new = k \<and>
         (\<forall>i \<in> set new. user_id i = uid)))"
proof (intro conjI allI impI)
  fix got' w'
  assume "openPack n uid cardsDb [] w = (Inr got', w')"
  from openPack_effect [OF this]
  show "\<exists>new. inventory (store w') = inventory (store w) @ new \<and> length new = n \<and>
             (\<forall>i \<in> set new. user_id i = uid)"
    by auto
next
  fix e w'
  assume "openPack n uid cardsDb [] w = (Inl e, w')"
  then show "\<exists>k got1 w1 new. k < n \<and> openPack k uid cardsDb [] w = (Inr got1, w1) \<and>
         pack_round uid cardsDb w1 = (Inl e, w') \<and>
         inventory (store w') = inventory (store w) @ new \<and> length new = k \<and>
         (\<forall>i \<in> set new. user_id i = uid)"
    by (rule openPack_failure)
qed

theorem openPack_commits_per_round_witness:
  "openPack 2 7 [] [] world_fault_in_loop =
     (Inr [\<lparr>card_id = 1, card_name = ''Card 5500'', card_rarity = ''common'',
            image_file_id = None, coins_per_hour = 1\<rparr>,
           \<lparr>card_id = 2, card_name = ''Card 5500'', card_rarity = ''common'',
            image_file_id = None, coins_per_hour = 1\<rparr>],
      snd (openPack 2 7 [] [] world_fault_in_loop)) \<and>
   fst (openPack 3 7 [] [] world_fault_in_loop) = Inl (QueryFailed ConnectionError) \<and>
   inventory (store world_fault_in_loop) = [] \<and>
   inventory (store (snd (openPack 3 7 [] [] world_fault_in_loop))) =
     [\<lparr>inv_id = 1, user_id = 7, inv_card_id = 1\<rparr>, \<lparr>inv_id = 2, user_id = 7, inv_card_id = 2\<rparr>] \<and>
   (\<exists>k got1 w1 new. k < 3 \<and> openPack k 7 [] [] world_fault_in_loop = (Inr got1, w1) \<and>
      pack_round 7 [] w1 =
        (Inl (QueryFailed ConnectionError), snd (openPack 3 7 [] [] world_fault_in_loop)) \<and>
      inventory (store (snd (openPack 3 7 [] [] world_fault_in_loop))) =
        inventory (store world_fault_in_loop) @ new \<and> length new = k)"
proof -
  have two: "fst (openPack 2 7 [] [] world_fault_in_loop) =
     Inr [\<lparr>card_id = 1, card_name = ''Card 5500'', card_rarity = ''common'',
            image_file_id = None, coins_per_hour = 1\<rparr>,
           \<lparr>card_id = 2, card_name = ''Card 5500'', card_rarity = ''common'',
            image_file_id = None, coins_per_hour = 1\<rparr>]"
    by (simp add: world_fault_in_loop_def eval_defs numeral_2_eq_2 card_name_5500)
  have ev: "fst (openPack 3 7 [] [] world_fault_in_loop) = Inl (QueryFailed ConnectionError)"
    "inventory (store world_fault_in_loop) = []"
    "inventory (store (snd (openPack 3 7 [] [] world_fault_in_loop))) =
       [\<lparr>inv_id = 1, user_id = 7, inv_card_id = 1\<rparr>, \<lparr>inv_id = 2, user_id = 7, inv_card_id = 2\<rparr>]"
    by (simp_all add: world_fault_in_loop_def eval_defs numeral_3_eq_3)
  from ev(1) have run: "openPack 3 7 [] [] world_fault_in_loop =
      (Inl (QueryFailed ConnectionError), snd (openPack 3 7 [] [] world_fault_in_loop))"
    by (simp add: prod_eq_iff)
  from openPack_commits_per_round [of 3 7 "[]" world_fault_in_loop] run
  have "\<exists>k got1 w1 new. k < 3 \<and> openPack k 7 [] [] world_fault_in_loop = (Inr got1, w1) \<and>
      pack_round 7 [] w1 =
        (Inl (QueryFailed ConnectionError), snd (openPack 3 7 [] [] world_fault_in_loop)) \<and>
      inventory (store (snd (openPack 3 7 [] [] world_fault_in_loop))) =
        inventory (store world_fault_in_loop) @ new \<and> length new = k"
    by blast
  with two ev show ?thesis by (simp add: prod_eq_iff)
qed

text \<open>
  C3 (counterexample). buyPack(7, 3, 25) by a user with 25 coins, with the fifth
  request (the first INSERT of the pack) rejected: the call fails after the debit and
  the balance is 0, not the 25 of before the call.
\<close>

theorem buyPack_debit_not_rolled_back_counterexample:
  "balance_of (store world_fault_after_debit) 7 = 25 \<and>
   issued (snd (buyPack 7 3 25 world_fault_after_debit)) =
     [Connect, SelectCoins 7, DebitCoins 25 7, SelectCards, InsertCard ''Card 5500'' ''common'' 1] \<and>
   fst (buyPack 7 3 25 world_fault_after_debit) = Inl (QueryFailed ConnectionError) \<and>
   balance_of (store (snd (buyPack 7 3 25 world_fault_after_debit))) 7 = 0"
  by (simp add: world_fault_after_debit_def eval_defs numeral_3_eq_3 balance_of_def
      card_name_5500)

text \<open>
  C3 (amended). For a user with an account and \<open>balance \<ge> price\<close>, once the
  connection, the balance query and the debit have gone through, the balance after
  buyPack is the balance before minus \<open>price\<close>, however the pack generation ends:
  a failure after the debit leaves the debit in place.
\<close>

theorem buyPack_debit_stays:
  assumes "uid \<in> set (map tg_id (users (store w)))"
      and "price \<le> balance_of (store w) uid"
      and "\<not> fault w (length (issued w))" "\<not> fault w (Suc (length (issued w)))"
          "\<not> fault w (Suc (Suc (length (issued w))))"
  shows "balance_of (store (snd (buyPack uid count price w))) uid = balance_of (store w) uid - price"
proof -
  let ?w3 = "w\<lparr>issued := issued w @ [Connect, SelectCoins uid, DebitCoins price uid],
                store := (store w)\<lparr>users := map (\<lambda>u. if tg_id u = uid then u\<lparr>coins := coins u - price\<rparr> else u)
                                              (users (store w))\<rparr>\<rparr>"
  obtain r w' where run:
    "bind_io (query SelectCards select_cards) (\<lambda>cardsDb. openPack (nat count) uid cardsDb []) ?w3 = (r, w')"
    by (cases "bind_io (query SelectCards select_cards) (\<lambda>cardsDb. openPack (nat count) uid cardsDb []) ?w3")
  from select_cards_then_openPack [OF run] have "users (store w') = users (store ?w3)" by simp
  then have "balance_of (store w') uid = balance_of (store ?w3) uid"
    by (simp add: balance_of_def)
  also have "\<dots> = balance_of (store w) uid - price"
    using assms(1) balance_of_update [where d = "store w" and uid = uid and uid' = uid and g = "\<lambda>c. c - price"] by simp
  finally show ?thesis
    using buyPack_paid [OF assms(3-5) assms(2), of count] run by simp
qed

theorem buyPack_debit_stays_witness:
  "7 \<in> set (map tg_id (users (store world_fault_first_insert))) \<and>
   20 \<le> balance_of (store world_fault_first_insert) 7 \<and>
   fst (buyPack 7 2 20 world_fault_first_insert) = Inl (QueryFailed ConnectionError) \<and>
   balance_of (store (snd (buyPack 7 2 20 world_fault_first_insert))) 7 = 0"
proof -
  have h: "7 \<in> set (map tg_id (users (store world_fault_first_insert)))"
    "20 \<le> balance_of (store world_fault_first_insert) 7"
    "\<not> fault world_fault_first_insert (length (issued world_fault_first_insert))"
    "\<not> fault world_fault_first_insert (Suc (length (issued world_fault_first_insert)))"
    "\<not> fault world_fault_first_insert (Suc (Suc (length (issued world_fault_first_insert))))"
    by (simp_all add: world_fault_first_insert_def balance_of_def)
  have b: "balance_of (store world_fault_first_insert) 7 = 20"
    by (simp add: world_fault_first_insert_def balance_of_def)
  have f: "fst (buyPack 7 2 20 world_fault_first_insert) = Inl (QueryFailed ConnectionError)"
    by (simp add: world_fault_first_insert_def eval_defs numeral_2_eq_2)
  from buyPack_debit_stays [OF h, of 2] b f h show ?thesis by simp
qed

text \<open>
  C4 (the code at the failing inputs). Trade 1 is addressed to user 20. User 30
  rejects it: the handler succeeds and the status is rejected. No trade has id 9;
  rejecting it succeeds as well. The accept handler refuses both inputs, with
  NotTarget and NotFound. The rejection changes no ownership.
\<close>

theorem trade_reject_unchecked:
  "target_of (store world_trades) 1 = [20] \<and>
   fst (trade_reject 1 30 world_trades) = Inr () \<and>
   status_of (store (snd (trade_reject 1 30 world_trades))) 1 = [''rejected''] \<and>
   inventory (store (snd (trade_reject 1 30 world_trades))) = inventory (store world_trades) \<and>
   status_of (store world_trades) 9 = [] \<and>
   fst (trade_reject 9 20 world_trades) = Inr () \<and>
   fst (trade_accept 1 30 world_trades) = Inl NotTarget \<and>
   fst (trade_accept 9 20 world_trades) = Inl NotFound"
  by (simp add: world_trades_def trade_eval_defs)

text \<open>
  C5 (the code at the failing input). The process runs three hours east of UTC and
  the cooldown is 30 minutes. User 7 opens a free pack at time 2800000 and asks
  again 61 seconds later, well inside the cooldown: the handler opens a second pack
  of five cards, and the inventory has ten rows. The same two calls in a process at
  UTC end the second one with CooldownActive and a wait of 29 minutes.
\<close>

theorem free_pack_cooldown_lost_east_of_utc:
  "fst (free_pack 30 10800000 7 2800000 world_cooldown) =
     Inr [flame_dragon, flame_dragon, flame_dragon, flame_dragon, flame_dragon] \<and>
   last_pack_of (store (snd (free_pack 30 10800000 7 2800000 world_cooldown))) 7 = 2800000 \<and>
   fst (free_pack 30 10800000 7 2861000 (snd (free_pack 30 10800000 7 2800000 world_cooldown))) =
     Inr [flame_dragon, flame_dragon, flame_dragon, flame_dragon, flame_dragon] \<and>
   length (inventory (store (snd (free_pack 30 10800000 7 2861000
             (snd (free_pack 30 10800000 7 2800000 world_cooldown)))))) = 10 \<and>
   fst (free_pack 30 0 7 2800000 world_cooldown) =
     Inr [flame_dragon, flame_dragon, flame_dragon, flame_dragon, flame_dragon] \<and>
   fst (free_pack 30 0 7 2861000 (snd (free_pack 30 0 7 2800000 world_cooldown))) =
     Inl (CooldownActive 29)"
  by (simp add: world_cooldown_def flame_dragon_def free_pack_eval_defs five_rounds)

text \<open>
  C6. buyPack with \<open>balance < price\<close> changes no table and, when no request is
  rejected, answers InsufficientFunds. With \<open>balance \<ge> price\<close>, for a user with an
  account in a world where the pack loop can run, it ends normally, the balance is
  lowered by exactly \<open>price\<close> and \<open>count\<close> inventory rows of the user are added.
  At balance 60 the bundle of 10 for 60 leaves balance 0; at balance 59 it is refused.
\<close>

theorem buyPack_contract:
  "(balance_of (store w) uid < price \<longrightarrow>
      store (snd (buyPack uid count price w)) = store w \<and>
      (no_faults w \<longrightarrow> fst (buyPack uid count price w) = Inl InsufficientFunds)) \<and>
   (price \<le> balance_of (store w) uid \<and> uid \<in> set (map tg_id (users (store w))) \<and> 0 \<le> count \<and>
    no_faults w \<and> rng_ok w \<and> wf_ids (store w) \<longrightarrow>
      (\<exists>got w'. buyPack uid count price w = (Inr got, w') \<and> int (length got) = count \<and>
         balance_of (store w') uid = balance_of (store w) uid - price \<and>
         (\<exists>new. inventory (store w') = inventory (store w) @ new \<and> int (length new) = count \<and>
                (\<forall>i \<in> set new. user_id i = uid))))"
proof (intro conjI impI)
  assume low: "balance_of (store w) uid < price"
  from buyPack_refused_store [OF low] show "store (snd (buyPack uid count price w)) = store w"
    by simp
  assume "no_faults w"
  then have "\<not> fault w (length (issued w))" "\<not> fault w (Suc (length (issued w)))"
    by (simp_all add: no_faults_def)
  from buyPack_refused [OF this low] show "fst (buyPack uid count price w) = Inl InsufficientFunds"
    by simp
next
  assume h: "price \<le> balance_of (store w) uid \<and> uid \<in> set (map tg_id (users (store w))) \<and> 0 \<le> count \<and>
    no_faults w \<and> rng_ok w \<and> wf_ids (store w)"
  let ?w3 = "w\<lparr>issued := issued w @ [Connect, SelectCoins uid, DebitCoins price uid],
                store := (store w)\<lparr>users := map (\<lambda>u. if tg_id u = uid then u\<lparr>coins := coins u - price\<rparr> else u)
                                              (users (store w))\<rparr>\<rparr>"
  from h have nf: "\<not> fault w (length (issued w))" "\<not> fault w (Suc (length (issued w)))"
    "\<not> fault w (Suc (Suc (length (issued w))))"
    by (simp_all add: no_faults_def)
  from h have paid: "buyPack uid count price w =
      bind_io (query SelectCards select_cards) (\<lambda>cardsDb. openPack (nat count) uid cardsDb []) ?w3"
    using buyPack_paid [OF nf] by simp
  have uid3: "uid \<in> set (map tg_id (users (store ?w3)))"
    using h by (auto simp: image_iff)
  from h have pre: "no_faults ?w3" "rng_ok ?w3" "wf_ids (store ?w3)"
    by (simp_all add: no_faults_def rng_ok_def wf_ids_def)
  from select_cards_then_openPack_ok [OF pre uid3, of "nat count"] obtain got w' where
    run: "bind_io (query SelectCards select_cards) (\<lambda>cardsDb. openPack (nat count) uid cardsDb []) ?w3 = (Inr got, w')"
    and len: "length got = nat count"
    by blast
  from select_cards_then_openPack [OF run] obtain new where
    us: "users (store w') = users (store ?w3)"
    and new: "inventory (store w') = inventory (store w) @ new" "\<forall>i \<in> set new. user_id i = uid"
      "length new = nat count"
    by auto
  from us have "balance_of (store w') uid = balance_of (store ?w3) uid"
    by (simp add: balance_of_def)
  also have "\<dots> = balance_of (store w) uid - price"
    using h balance_of_update [where d = "store w" and uid = uid and uid' = uid and g = "\<lambda>c. c - price"] by simp
  finally have bal: "balance_of (store w') uid = balance_of (store w) uid - price" .
  from h len new have "int (length got) = count" "int (length new) = count" by simp_all
  with paid run bal new
  show "\<exists>got w'. buyPack uid count price w = (Inr got, w') \<and> int (length got) = count \<and>
         balance_of (store w') uid = balance_of (store w) uid - price \<and>
         (\<exists>new. inventory (store w') = inventory (store w) @ new \<and> int (length new) = count \<and>
                (\<forall>i \<in> set new. user_id i = uid))"
    by auto
qed

theorem buyPack_contract_witness:
  "balance_of (store world_59_coins) 7 = 59 \<and>
   fst (buyPack 7 10 60 world_59_coins) = Inl InsufficientFunds \<and>
   store (snd (buyPack 7 10 60 world_59_coins)) = store world_59_coins \<and>
   balance_of (store world_empty_catalog) 7 = 60 \<and>
   (\<exists>got w'. buyPack 7 10 60 world_empty_catalog = (Inr got, w') \<and> length got = 10 \<and>
      balance_of (store w') 7 = 0 \<and> length (inventory (store w')) = 10)"
proof -
  have a: "balance_of (store world_59_coins) 7 = 59" "no_faults world_59_coins"
    by (simp_all add: world_59_coins_def balance_of_def no_faults_def)
  have b: "balance_of (store world_empty_catalog) 7 = 60"
    "7 \<in> set (map tg_id (users (store world_empty_catalog)))"
    "no_faults world_empty_catalog" "rng_ok world_empty_catalog" "wf_ids (store world_empty_catalog)"
    "inventory (store world_empty_catalog) = []"
    by (simp_all add: world_empty_catalog_def balance_of_def no_faults_def rng_ok_def wf_ids_def)
  from buyPack_contract [of world_59_coins 7 60 10] a
  have one: "fst (buyPack 7 10 60 world_59_coins) = Inl InsufficientFunds \<and>
    store (snd (buyPack 7 10 60 world_59_coins)) = store world_59_coins"
    by simp
  from buyPack_contract [of world_empty_catalog 7 60 10] b
  obtain got w' new where "buyPack 7 10 60 world_empty_catalog = (Inr got, w')"
    "int (length got) = 10" "balance_of (store w') 7 = 0"
    "inventory (store w') = new" "int (length new) = 10"
    by auto
  then have two: "\<exists>got w'. buyPack 7 10 60 world_empty_catalog = (Inr got, w') \<and> length got = 10 \<and>
      balance_of (store w') 7 = 0 \<and> length (inventory (store w')) = 10"
    by auto
  from a(1) b(1) one two show ?thesis by simp
qed

text \<open>
  C7. A successful run of the pack loop for \<open>uid\<close> with \<open>n\<close> rounds adds exactly
  \<open>n\<close> inventory rows, each owned by \<open>uid\<close>, whether the catalog snapshot is empty
  or not and whichever rarity is drawn; and in a ready world the run is successful.
  From an empty catalog every round makes a card, so five rounds make five cards
  (between 1 and 5) and five inventory rows.
\<close>

theorem openPack_creates_count:
  "(pack_ready uid cardsDb w \<longrightarrow> (\<exists>got' w'. openPack n uid cardsDb [] w = (Inr got', w'))) \<and>
   (\<forall>got' w'. openPack n uid cardsDb [] w = (Inr got', w') \<longrightarrow>
      length got' = n \<and>
      (\<exists>new. inventory (store w') = inventory (store w) @ new \<and> length new = n \<and>
             (\<forall>i \<in> set new. user_id i = uid)) \<and>
      (cardsDb = [] \<longrightarrow> (\<exists>made. cards (store w') = cards (store w) @ made \<and> length made = n)) \<and>
      (cardsDb = [] \<and> cards (store w) = [] \<and> n = 5 \<longrightarrow>
         1 \<le> length (cards (store w')) \<and> length (cards (store w')) \<le> 5 \<and>
         length (inventory (store w')) = length (inventory (store w)) + 5))"
proof (intro conjI impI allI)
  assume "pack_ready uid cardsDb w"
  from openPack_ok [OF this] show "\<exists>got' w'. openPack n uid cardsDb [] w = (Inr got', w')"
    by blast
next
  fix got' w'
  assume run: "openPack n uid cardsDb [] w = (Inr got', w')"
  from openPack_got [OF run] show "length got' = n" by simp
  from openPack_effect [OF run]
  show "\<exists>new. inventory (store w') = inventory (store w) @ new \<and> length new = n \<and>
             (\<forall>i \<in> set new. user_id i = uid)"
    by auto
  {
    assume "cardsDb = []"
    with openPack_effect [OF run]
    show "\<exists>made. cards (store w') = cards (store w) @ made \<and> length made = n" by auto
  }
  {
    assume a: "cardsDb = [] \<and> cards (store w) = [] \<and> n = 5"
    with openPack_effect [OF run]
    show "1 \<le> length (cards (store w'))" "length (cards (store w')) \<le> 5"
      "length (inventory (store w')) = length (inventory (store w)) + 5"
      by auto
  }
qed

theorem openPack_creates_count_witness:
  "pack_ready 7 [] world_empty_catalog \<and>
   (\<exists>got' w'. openPack 5 7 [] [] world_empty_catalog = (Inr got', w') \<and>
      length got' = 5 \<and>
      map user_id (inventory (store w')) = [7, 7, 7, 7, 7] \<and>
      map card_id (cards (store w')) = [1, 2, 3, 4, 5])"
proof -
  have ready: "pack_ready 7 [] world_empty_catalog"
    by (simp add: pack_ready_def no_faults_def rng_ok_def wf_ids_def world_empty_catalog_def)
  have ev: "map user_id (inventory (store (snd (openPack 5 7 [] [] world_empty_catalog)))) = [7, 7, 7, 7, 7]"
    "map card_id (cards (store (snd (openPack 5 7 [] [] world_empty_catalog)))) = [1, 2, 3, 4, 5]"
    by (simp_all add: world_empty_catalog_def eval_defs five_rounds)
  from openPack_creates_count [of 7 "[]" world_empty_catalog 5] ready
  obtain got' w' where run: "openPack 5 7 [] [] world_empty_catalog = (Inr got', w')"
    "length got' = 5"
    by blast
  with ev ready show ?thesis by simp
qed

text \<open>
  C8 (counterexample). User 1 owns one card, whose income rate is -3, and has 10
  coins. The sum of the rates of the cards user 1 owns is -3. The tick ends
  normally and the balance is still 10: it is not changed by the sum.
\<close>

theorem income_tick_negative_sum_counterexample:
  "income_of (store world_income_negative) 1 = - 3 \<and>
   owned_income (store world_income_negative) 1 = - 3 \<and>
   balance_of (store world_income_negative) 1 = 10 \<and>
   fst (givePassiveIncomeAll observed_order world_income_negative) = Inr () \<and>
   issued (income_tick observed_order world_income_negative) = [Connect, SelectIncome] \<and>
   balance_of (store (income_tick observed_order world_income_negative)) 1 = 10"
  by (simp add: world_income_negative_def income_eval_defs owned_income_def observed_order_def)

text \<open>
  C8 (amended). One tick without rejected requests, on a users table with distinct
  ids (the primary key), in whatever order the income query hands its rows over:
  every user whose summed income rate is positive has the balance raised by exactly
  that sum. The sum of the query is the sum over the inventory entries the user owns
  of the rates of the cards they reference (card ids being distinct, the primary
  key). The tick sends one UPDATE for each row of the query with a positive sum and
  no other request: a user who owns no card, or whose sum is zero or negative,
  keeps the balance and gets no UPDATE.
\<close>

theorem income_tick_credits:
  assumes "no_faults w" and "distinct (map tg_id (users (store w)))"
  shows "fst (givePassiveIncomeAll rank w) = Inr () \<and>
     issued (income_tick rank w) =
       issued w @ [Connect, SelectIncome] @
         map (\<lambda>r. CreditCoins (snd r) (fst r))
           (filter (\<lambda>r. 0 < snd r) (income_rows rank (store w))) \<and>
     (uid \<in> set (map tg_id (users (store w))) \<and> 0 < income_of (store w) uid \<longrightarrow>
        balance_of (store (income_tick rank w)) uid =
          balance_of (store w) uid + income_of (store w) uid) \<and>
     (distinct (map card_id (cards (store w))) \<longrightarrow>
        income_of (store w) uid = owned_income (store w) uid) \<and>
     (filter (\<lambda>i. user_id i = uid) (inventory (store w)) = [] \<longrightarrow> income_of (store w) uid = 0) \<and>
     (income_of (store w) uid \<le> 0 \<longrightarrow>
        balance_of (store (income_tick rank w)) uid = balance_of (store w) uid \<and>
        (\<forall>x. CreditCoins x uid \<notin> set (drop (length (issued w)) (issued (income_tick rank w)))))"
proof -
  let ?rows = "income_rows rank (store w)"
  let ?w2 = "w\<lparr>issued := issued w @ [Connect, SelectIncome]\<rparr>"
  from assms(1) have shape: "givePassiveIncomeAll rank w = credit_rows ?rows ?w2"
    by (intro givePassiveIncomeAll_rows) (simp_all add: no_faults_def)
  note d = income_rows_distinct [OF assms(2), of rank]
  from assms(1) have b: "\<forall>n. n < length (issued ?w2) + length (filter (\<lambda>r. 0 < snd r) ?rows) \<longrightarrow> \<not> fault ?w2 n"
    by (simp add: no_faults_def)
  from credit_rows_ok [OF b d] obtain w' where
    run: "credit_rows ?rows ?w2 = (Inr (), w')"
    and iss: "issued w' = issued ?w2 @ map (\<lambda>r. CreditCoins (snd r) (fst r)) (filter (\<lambda>r. 0 < snd r) ?rows)"
    and bal: "\<forall>v. balance_of (store w') v =
            balance_of (store ?w2) v +
              (if v \<in> set (map tg_id (users (store ?w2)))
               then (case map_of ?rows v of Some i \<Rightarrow> if 0 < i then i else 0 | None \<Rightarrow> 0)
               else 0)"
    by blast
  from shape run have tick: "income_tick rank w = w'"
    and res: "fst (givePassiveIncomeAll rank w) = Inr ()"
    by (simp_all add: income_tick_def)
  have iss': "issued w' = issued w @ [Connect, SelectIncome] @
         map (\<lambda>r. CreditCoins (snd r) (fst r)) (filter (\<lambda>r. 0 < snd r) ?rows)"
    unfolding iss by simp
  have member: "balance_of (store w') uid =
      balance_of (store w) uid + (if 0 < income_of (store w) uid then income_of (store w) uid else 0)"
    if "uid \<in> set (map tg_id (users (store w)))"
    using that bal [rule_format, of uid] income_rows_lookup [OF assms(2) that, of rank] by simp
  have pos: "balance_of (store w') uid = balance_of (store w) uid + income_of (store w) uid"
    if "uid \<in> set (map tg_id (users (store w)))" "0 < income_of (store w) uid"
    using member [OF that(1)] that(2) by simp
  have zero: "balance_of (store w') uid = balance_of (store w) uid"
    if z: "income_of (store w) uid \<le> 0"
  proof (cases "uid \<in> set (map tg_id (users (store w)))")
    case True
    from member [OF True] z show ?thesis by simp
  next
    case False
    with bal [rule_format, of uid] show ?thesis by simp
  qed
  have nowrite: "CreditCoins x uid \<notin> set (drop (length (issued w)) (issued w'))"
    if z: "income_of (store w) uid \<le> 0" for x
  proof
    assume "CreditCoins x uid \<in> set (drop (length (issued w)) (issued w'))"
    then obtain r where r: "r \<in> set ?rows" "0 < snd r" "fst r = uid"
      unfolding iss' by auto
    from income_rows_value [OF r(1)] r(2,3) z show False by simp
  qed
  from res tick iss' pos zero nowrite
    income_of_no_cards [of uid "store w"] income_of_owned_income [of "store w" uid]
  show ?thesis by simp
qed

theorem income_tick_credits_witness:
  "no_faults world_income \<and> distinct (map tg_id (users (store world_income))) \<and>
   income_of (store world_income) 1 = 9 \<and> owned_income (store world_income) 1 = 9 \<and>
   balance_of (store world_income) 1 = 10 \<and>
   balance_of (store (income_tick observed_order world_income)) 1 = 19 \<and>
   filter (\<lambda>i. user_id i = 2) (inventory (store world_income)) = [] \<and>
   balance_of (store world_income) 2 = 5 \<and>
   balance_of (store (income_tick observed_order world_income)) 2 = 5 \<and>
   income_rows observed_order (store world_income) = [(2, 0), (1, 9)] \<and>
   issued (income_tick observed_order world_income) = [Connect, SelectIncome, CreditCoins 9 1]"
proof -
  have h: "no_faults world_income" "distinct (map tg_id (users (store world_income)))"
    by (simp_all add: world_income_def no_faults_def)
  have v: "income_of (store world_income) 1 = 9" "balance_of (store world_income) 1 = 10"
    "distinct (map card_id (cards (store world_income)))"
    "filter (\<lambda>i. user_id i = 2) (inventory (store world_income)) = []"
    "balance_of (store world_income) 2 = 5" "income_of (store world_income) 2 = 0"
    "1 \<in> set (map tg_id (users (store world_income)))"
    "issued world_income = []"
    "income_rows observed_order (store world_income) = [(2, 0), (1, 9)]"
    by (simp_all add: world_income_def income_of_def balance_of_def income_rows_def
        observed_order_def)
  from income_tick_credits [OF h, of observed_order 1]
    income_tick_credits [OF h, of observed_order 2] h v
  show ?thesis by simp
qed

text \<open>
  C9 (counterexample). Users 1, 2 and 3 each own a card, and the income query hands
  its rows over in the order 2, 3, 1. The first credit of the tick, that of user 2,
  is rejected. The tick ends with the error: users 3 and 1, whose own credits never
  failed, are not credited, and no request is sent for them.
\<close>

theorem income_tick_failure_counterexample:
  "income_rows observed_order (store world_income_fault) = [(2, 8), (3, 1), (1, 1)] \<and>
   fst (givePassiveIncomeAll observed_order world_income_fault) =
     Inl (QueryFailed ConnectionError) \<and>
   issued (income_tick observed_order world_income_fault) =
     [Connect, SelectIncome, CreditCoins 8 2] \<and>
   balance_of (store world_income_fault) 3 = 0 \<and>
   balance_of (store (income_tick observed_order world_income_fault)) 3 = 0 \<and>
   balance_of (store world_income_fault) 1 = 10 \<and>
   balance_of (store (income_tick observed_order world_income_fault)) 1 = 10"
  by (simp add: world_income_fault_def income_eval_defs observed_order_def)

text \<open>
  C9 (amended). Let the income query hand over the rows \<open>pre\<close>, then the row of
  user \<open>u\<close>, then \<open>post\<close>, and let the credit of \<open>u\<close> be rejected (and no request
  before it). Then givePassiveIncomeAll ends with that error: \<open>u\<close> and every user of
  \<open>post\<close> keep the balance they had, and the users of \<open>pre\<close> keep the credit they
  got. The error is isolated per tick only (the timer's callback catches it), not
  per user.
\<close>

theorem income_tick_stops_at_failure:
  assumes "distinct (map tg_id (users (store w)))"
      and "income_rows rank (store w) = pre @ (u, inc) # post"
      and "0 < inc"
      and "\<forall>n. n < length (issued w) + 2 + length (filter (\<lambda>r. 0 < snd r) pre) \<longrightarrow>
                 \<not> fault w n"
      and "fault w (length (issued w) + 2 + length (filter (\<lambda>r. 0 < snd r) pre))"
  shows "fst (givePassiveIncomeAll rank w) = Inl (QueryFailed ConnectionError) \<and>
         (\<forall>r \<in> set ((u, inc) # post).
            balance_of (store (income_tick rank w)) (fst r) = balance_of (store w) (fst r)) \<and>
         (\<forall>r \<in> set pre.
            balance_of (store (income_tick rank w)) (fst r) =
              balance_of (store w) (fst r) + (if 0 < snd r then snd r else 0))"
proof -
  let ?k = "length (filter (\<lambda>r. 0 < snd r) pre)"
  let ?w2 = "w\<lparr>issued := issued w @ [Connect, SelectIncome]\<rparr>"
  from assms(4) have "\<not> fault w (length (issued w))" "\<not> fault w (Suc (length (issued w)))"
    by simp_all
  then have shape: "givePassiveIncomeAll rank w = credit_rows (pre @ (u, inc) # post) ?w2"
    using givePassiveIncomeAll_rows [of w rank] assms(2) by simp
  from income_rows_distinct [OF assms(1), of rank] assms(2)
  have dall: "distinct (map fst (pre @ (u, inc) # post))" by simp
  then have d: "distinct (map fst pre)" by simp
  from assms(4)
  have b: "\<forall>n. n < length (issued ?w2) + length (filter (\<lambda>r. 0 < snd r) pre) \<longrightarrow> \<not> fault ?w2 n"
    by simp
  from credit_rows_ok [OF b d] obtain w1 where
    run1: "credit_rows pre ?w2 = (Inr (), w1)" and f1: "fault w1 = fault w"
    and iss: "issued w1 = issued ?w2 @ map (\<lambda>r. CreditCoins (snd r) (fst r)) (filter (\<lambda>r. 0 < snd r) pre)"
    and bal: "\<forall>v. balance_of (store w1) v =
            balance_of (store w) v +
              (if v \<in> set (map tg_id (users (store w)))
               then (case map_of pre v of Some i \<Rightarrow> if 0 < i then i else 0 | None \<Rightarrow> 0)
               else 0)"
    by auto
  from iss have len: "length (issued w1) = length (issued w) + 2 + ?k" by simp
  with assms(5) f1 have "fault w1 (length (issued w1))" by simp
  from query_credit_fault [OF this, of inc u] assms(3)
  have run2: "credit_rows ((u, inc) # post) w1 =
      (Inl (QueryFailed ConnectionError), w1\<lparr>issued := issued w1 @ [CreditCoins inc u]\<rparr>)"
    by simp
  from shape run1 run2
  have all: "givePassiveIncomeAll rank w =
      (Inl (QueryFailed ConnectionError), w1\<lparr>issued := issued w1 @ [CreditCoins inc u]\<rparr>)"
    by (simp add: credit_rows_append)
  then have st: "store (income_tick rank w) = store w1" by (simp add: income_tick_def)
  have rest: "balance_of (store w1) (fst r) = balance_of (store w) (fst r)"
    if "r \<in> set ((u, inc) # post)" for r
  proof -
    from that dall have "fst r \<notin> fst ` set pre" by force
    then have "map_of pre (fst r) = None"
      by (simp add: map_of_eq_None_iff)
    with bal [rule_format, of "fst r"] show ?thesis by simp
  qed
  have before: "balance_of (store w1) (fst r) =
      balance_of (store w) (fst r) + (if 0 < snd r then snd r else 0)"
    if "r \<in> set pre" for r
  proof -
    from that d have m: "map_of pre (fst r) = Some (snd r)"
      by (intro map_of_is_SomeI) simp_all
    from that assms(2) have "r \<in> set (income_rows rank (store w))" by simp
    then have "fst r \<in> fst ` set (income_rows rank (store w))" by (rule imageI)
    then have "fst r \<in> set (map tg_id (users (store w)))"
      by (simp only: income_rows_users)
    with bal [rule_format, of "fst r"] m show ?thesis by simp
  qed
  from all st rest before show ?thesis by simp
qed

theorem income_tick_stops_at_failure_witness:
  "distinct (map tg_id (users (store world_income_fault_second))) \<and>
   income_rows observed_order (store world_income_fault_second) = [(2, 8)] @ (3, 1) # [(1, 1)] \<and>
   fault world_income_fault_second 3 \<and>
   fst (givePassiveIncomeAll observed_order world_income_fault_second) =
     Inl (QueryFailed ConnectionError) \<and>
   balance_of (store (income_tick observed_order world_income_fault_second)) 1 = 10 \<and>
   balance_of (store (income_tick observed_order world_income_fault_second)) 2 = 13 \<and>
   balance_of (store (income_tick observed_order world_income_fault_second)) 3 = 0"
proof -
  have v: "balance_of (store world_income_fault_second) 1 = 10"
    "balance_of (store world_income_fault_second) 2 = 5"
    "balance_of (store world_income_fault_second) 3 = 0" "issued world_income_fault_second = []"
    "fault world_income_fault_second = (\<lambda>n. n = 3)"
    by (simp_all add: world_income_fault_second_def balance_of_def)
  have h: "distinct (map tg_id (users (store world_income_fault_second)))"
    "income_rows observed_order (store world_income_fault_second) = [(2, 8)] @ (3, 1) # [(1, 1)]"
    "(0::int) < 1"
    "\<forall>n. n < length (issued world_income_fault_second) + 2 +
        length (filter (\<lambda>r. 0 < snd r) [(2::int, 8::int)]) \<longrightarrow>
        \<not> fault world_income_fault_second n"
    "fault world_income_fault_second (length (issued world_income_fault_second) + 2 +
        length (filter (\<lambda>r. 0 < snd r) [(2::int, 8::int)]))"
    using v by (simp_all add: world_income_fault_second_def income_rows_def income_of_def
        observed_order_def)
  from income_tick_stops_at_failure [OF h] v h(1,2) show ?thesis by simp
qed

text \<open>
  C10. buyPack for a user without an account reads the balance as 0: for every
  positive price it changes no table (no account row, no inventory row), it ends with
  an error, and the error is InsufficientFunds when the connection and the balance
  query are not rejected. The same holds for the three bundles of the shop.
\<close>

theorem buyPack_no_account:
  assumes "uid \<notin> set (map tg_id (users (store w)))" and "0 < price"
  shows "balance_of (store w) uid = 0 \<and>
         store (snd (buyPack uid count price w)) = store w \<and>
         (\<exists>e. fst (buyPack uid count price w) = Inl e) \<and>
         (\<not> fault w (length (issued w)) \<and> \<not> fault w (Suc (length (issued w))) \<longrightarrow>
            fst (buyPack uid count price w) = Inl InsufficientFunds) \<and>
         (k \<in> set [''buy_2'', ''buy_3'', ''buy_10''] \<longrightarrow> store (snd (buy_action uid k w)) = store w \<and>
            (\<not> fault w (length (issued w)) \<and> \<not> fault w (Suc (length (issued w))) \<longrightarrow>
               fst (buy_action uid k w) = Inl InsufficientFunds))"
proof -
  have zero: "balance_of (store w) uid = 0"
    using assms(1) by (rule balance_of_no_account)
  have low: "\<And>p. 0 < p \<Longrightarrow> balance_of (store w) uid < p"
    using zero by simp
  have ref: "\<And>c p. 0 < p \<Longrightarrow> \<not> fault w (length (issued w)) \<and> \<not> fault w (Suc (length (issued w))) \<Longrightarrow>
        fst (buyPack uid c p w) = Inl InsufficientFunds"
    using buyPack_refused [OF _ _ low] by simp
  have keep: "\<And>c p. 0 < p \<Longrightarrow> store (snd (buyPack uid c p w)) = store w"
    using buyPack_refused_store [OF low] by simp
  have act: "buy_action uid ''buy_2'' = buyPack uid 2 20" "buy_action uid ''buy_3'' = buyPack uid 3 25"
    "buy_action uid ''buy_10'' = buyPack uid 10 60"
    by (simp_all add: buy_action_def)
  show ?thesis
    using zero keep [OF assms(2), of count] ref [OF assms(2), of count]
      buyPack_refused_store [OF low [OF assms(2)], of count]
      keep [of 20 2] keep [of 25 3] keep [of 60 10] ref [of 20 2] ref [of 25 3] ref [of 60 10] act
    by auto
qed

theorem buyPack_no_account_witness:
  "8 \<notin> set (map tg_id (users (store world_empty_catalog))) \<and>
   fst (buyPack 8 2 20 world_empty_catalog) = Inl InsufficientFunds \<and>
   fst (buy_action 8 ''buy_2'' world_empty_catalog) = Inl InsufficientFunds \<and>
   users (store (snd (buyPack 8 2 20 world_empty_catalog))) = [\<lparr>tg_id = 7, last_pack = 0, coins = 60\<rparr>] \<and>
   inventory (store (snd (buyPack 8 2 20 world_empty_catalog))) = []"
proof -
  have h: "8 \<notin> set (map tg_id (users (store world_empty_catalog)))"
    "\<not> fault world_empty_catalog (length (issued world_empty_catalog))"
    "\<not> fault world_empty_catalog (Suc (length (issued world_empty_catalog)))"
    "users (store world_empty_catalog) = [\<lparr>tg_id = 7, last_pack = 0, coins = 60\<rparr>]"
    "inventory (store world_empty_catalog) = []"
    by (simp_all add: world_empty_catalog_def)
  from buyPack_no_account [OF h(1), of 20 2 "''buy_2''"] h show ?thesis by simp
qed

end
